theory Spec2Isabelle
  imports Complex_Main "HOL-Library.Log_Nat" "HOL-Library.Char_ord"
begin

section \<open>Strings\<close>

text \<open>
  A JavaScript string is modelled by the list of the bytes of its UTF-8 encoding, so an
  ASCII character is one \<^typ>\<open>char\<close> and \<open>Buffer.from(s, 'utf-8')\<close> does not change the
  representation. The character classes the code tests (\<open>\d\<close>, \<open>\w\<close>, hexadecimal digits,
  \<open>/\<close>, \<open>*\<close>, \<open>:\<close>) are all ASCII. Case conversion is modelled on the ASCII letters only.
\<close>

definition is_digit :: "char \<Rightarrow> bool" where
  "is_digit c = (CHR ''0'' \<le> c \<and> c \<le> CHR ''9'')"

definition is_hex :: "char \<Rightarrow> bool" where
  "is_hex c = (is_digit c \<or> (CHR ''a'' \<le> c \<and> c \<le> CHR ''f'') \<or> (CHR ''A'' \<le> c \<and> c \<le> CHR ''F''))"

definition is_word_char :: "char \<Rightarrow> bool" where
  \<comment> \<open>the class \<open>\w\<close>\<close>
  "is_word_char c = (is_digit c \<or> (CHR ''a'' \<le> c \<and> c \<le> CHR ''z'')
      \<or> (CHR ''A'' \<le> c \<and> c \<le> CHR ''Z'') \<or> c = CHR ''_'')"

definition lower_char :: "char \<Rightarrow> char" where
  "lower_char c = (if CHR ''A'' \<le> c \<and> c \<le> CHR ''Z'' then char_of (of_char c + (32::nat)) else c)"

definition upper_char :: "char \<Rightarrow> char" where
  "upper_char c = (if CHR ''a'' \<le> c \<and> c \<le> CHR ''z'' then char_of (of_char c - (32::nat)) else c)"

definition toLowerCase :: "string \<Rightarrow> string" where
  "toLowerCase s = map lower_char s"

definition toUpperCase :: "string \<Rightarrow> string" where
  "toUpperCase s = map upper_char s"

definition hex_val :: "char \<Rightarrow> int" where
  \<comment> \<open>the value of a decimal or hexadecimal digit\<close>
  "hex_val c = (if is_digit c then of_char c - 48
                else if CHR ''a'' \<le> c then of_char c - 87 else of_char c - 55)"

definition digit_char :: "int \<Rightarrow> char" where
  "digit_char d = char_of (48 + d)"

text \<open>The value of a digit string in a base, most significant digit first.\<close>

definition digits_val :: "int \<Rightarrow> string \<Rightarrow> int" where
  "digits_val b ds = foldl (\<lambda>acc c. acc * b + hex_val c) 0 ds"

text \<open>Decimal digits of a non-negative integer, as \<open>BigInt.prototype.toString\<close> and
  \<open>Number.prototype.toString\<close> write them. Integers are of type \<^typ>\<open>int\<close> throughout, also
  where they cannot be negative.\<close>

function show_nat :: "int \<Rightarrow> string" where
  "show_nat n = (if n < 10 then [digit_char n] else show_nat (n div 10) @ [digit_char (n mod 10)])"
  by pat_completeness auto
termination
  by (relation "measure nat") auto

declare show_nat.simps [simp del]

definition show_int :: "int \<Rightarrow> string" where
  "show_int i = (if i < 0 then CHR ''-'' # show_nat (- i) else show_nat i)"

text \<open>
  White space as \<open>String.prototype.trim\<close>, \<open>parseFloat\<close> and \<open>BigInt\<close> strip it: the
  ECMAScript \<open>WhiteSpace\<close> and \<open>LineTerminator\<close> code points, here in UTF-8
  (TAB, LF, VT, FF, CR, SP, U+00A0, U+1680, U+2000..U+200A, U+2028, U+2029, U+202F,
  U+205F, U+3000, U+FEFF).
\<close>

definition js_whitespace :: "string list" where
  "js_whitespace =
     [[CHR 0x09], [CHR 0x0A], [CHR 0x0B], [CHR 0x0C], [CHR 0x0D], [CHR 0x20],
      [CHR 0xC2, CHR 0xA0], [CHR 0xE1, CHR 0x9A, CHR 0x80],
      [CHR 0xE2, CHR 0x80, CHR 0x80], [CHR 0xE2, CHR 0x80, CHR 0x81], [CHR 0xE2, CHR 0x80, CHR 0x82],
      [CHR 0xE2, CHR 0x80, CHR 0x83], [CHR 0xE2, CHR 0x80, CHR 0x84], [CHR 0xE2, CHR 0x80, CHR 0x85],
      [CHR 0xE2, CHR 0x80, CHR 0x86], [CHR 0xE2, CHR 0x80, CHR 0x87], [CHR 0xE2, CHR 0x80, CHR 0x88],
      [CHR 0xE2, CHR 0x80, CHR 0x89], [CHR 0xE2, CHR 0x80, CHR 0x8A],
      [CHR 0xE2, CHR 0x80, CHR 0xA8], [CHR 0xE2, CHR 0x80, CHR 0xA9], [CHR 0xE2, CHR 0x80, CHR 0xAF],
      [CHR 0xE2, CHR 0x81, CHR 0x9F], [CHR 0xE3, CHR 0x80, CHR 0x80], [CHR 0xEF, CHR 0xBB, CHR 0xBF]]"

fun starts_with :: "string \<Rightarrow> string \<Rightarrow> bool" where
  "starts_with [] s = True"
| "starts_with (p # ps) [] = False"
| "starts_with (p # ps) (c # cs) = (p = c \<and> starts_with ps cs)"

definition ws_len :: "string list \<Rightarrow> string \<Rightarrow> nat" where
  \<comment> \<open>length of the white space character the string starts with, 0 when there is none\<close>
  "ws_len ws s = (case List.find (\<lambda>w. starts_with w s) ws of None \<Rightarrow> 0 | Some w \<Rightarrow> length w)"

fun strip_ws :: "string list \<Rightarrow> nat \<Rightarrow> string \<Rightarrow> string" where
  \<comment> \<open>the counter bounds the number of characters stripped; the callers pass the length\<close>
  "strip_ws ws 0 s = s"
| "strip_ws ws (Suc n) s = (if ws_len ws s = 0 then s else strip_ws ws n (drop (ws_len ws s) s))"

definition trim_start :: "string \<Rightarrow> string" where
  "trim_start s = strip_ws js_whitespace (length s) s"

definition trim_end :: "string \<Rightarrow> string" where
  "trim_end s = rev (strip_ws (map rev js_whitespace) (length s) (rev s))"

definition trim :: "string \<Rightarrow> string" where
  "trim s = trim_end (trim_start s)"

definition padStart :: "nat \<Rightarrow> char \<Rightarrow> string \<Rightarrow> string" where
  "padStart n c s = replicate (n - length s) c @ s"

definition strip_trailing_zeros :: "string \<Rightarrow> string" where
  \<comment> \<open>\<open>s.replace(/0+$/, '')\<close>\<close>
  "strip_trailing_zeros s = rev (dropWhile (\<lambda>c. c = CHR ''0'') (rev s))"

section \<open>Numbers\<close>

text \<open>
  A JavaScript number is an IEEE 754 double. A finite double is modelled by its exact
  rational value, and every arithmetic result is rounded to the nearest double, ties to
  even (\<open>round_double\<close>). The two zeros are not told apart: nothing below observes the sign
  of a zero. \<open>Infinity True\<close> is \<open>-Infinity\<close>.
\<close>

datatype number = NaN | Infinity bool | Finite rat

definition pow2 :: "int \<Rightarrow> rat" where
  "pow2 e = (if 0 \<le> e then 2 ^ nat e else 1 / 2 ^ nat (- e))"

definition pow10 :: "int \<Rightarrow> rat" where
  "pow10 e = (if 0 \<le> e then 10 ^ nat e else 1 / 10 ^ nat (- e))"

definition binexp :: "rat \<Rightarrow> int" where
  \<comment> \<open>for \<open>0 < r\<close>, the \<open>e\<close> with \<open>2 ^ e \<le> r < 2 ^ (e + 1)\<close>\<close>
  "binexp r = (let (p, q) = quotient_of r; d = bitlen p - bitlen q
               in if pow2 d \<le> r then d else d - 1)"

definition round_half_even :: "rat \<Rightarrow> int" where
  "round_half_even r =
     (let f = \<lfloor>r\<rfloor>; d = r - of_int f
      in if d < 1 / 2 then f else if 1 / 2 < d then f + 1 else if even f then f else f + 1)"

definition round_double :: "rat \<Rightarrow> number" where
  \<comment> \<open>53 significant bits, exponents from -1022 (below it the spacing stays \<open>2 ^ -1074\<close>)
      to 1023 (above it the result is infinite)\<close>
  "round_double r =
     (if r = 0 then Finite 0
      else
        let a = \<bar>r\<bar>;
            e = max (binexp a) (- 1022);
            q = pow2 (e - 52);
            m = round_half_even (a / q);
            v = of_int m * q
        in if 1023 < e \<or> (e = 1023 \<and> m = 2 ^ 53) then Infinity (r < 0)
           else Finite (if r < 0 then - v else v))"

definition is_double :: "rat \<Rightarrow> bool" where
  "is_double r = (round_double r = Finite r)"

definition num_of_int :: "int \<Rightarrow> number" where
  "num_of_int n = round_double (of_int n)"

definition js_times :: "number \<Rightarrow> number \<Rightarrow> number" where
  "js_times x y =
     (case (x, y) of
        (Finite a, Finite b) \<Rightarrow> round_double (a * b)
      | (Finite a, Infinity s) \<Rightarrow> if a = 0 then NaN else Infinity (s \<noteq> (a < 0))
      | (Infinity s, Finite b) \<Rightarrow> if b = 0 then NaN else Infinity (s \<noteq> (b < 0))
      | (Infinity s, Infinity t) \<Rightarrow> Infinity (s \<noteq> t)
      | _ \<Rightarrow> NaN)"

definition js_divide :: "number \<Rightarrow> number \<Rightarrow> number" where
  "js_divide x y =
     (case (x, y) of
        (Finite a, Finite b) \<Rightarrow>
          if b = 0 then (if a = 0 then NaN else Infinity (a < 0)) else round_double (a / b)
      | (Finite a, Infinity s) \<Rightarrow> Finite 0
      | (Infinity s, Finite b) \<Rightarrow> Infinity (s \<noteq> (b < 0))
      | _ \<Rightarrow> NaN)"

definition js_less :: "number \<Rightarrow> number \<Rightarrow> bool" where
  \<comment> \<open>\<open>x < y\<close>; every comparison with \<open>NaN\<close> is false\<close>
  "js_less x y =
     (case (x, y) of
        (Finite a, Finite b) \<Rightarrow> a < b
      | (Finite a, Infinity s) \<Rightarrow> \<not> s
      | (Infinity s, Finite b) \<Rightarrow> s
      | (Infinity s, Infinity t) \<Rightarrow> s \<and> \<not> t
      | _ \<Rightarrow> False)"

definition isNaN :: "number \<Rightarrow> bool" where
  "isNaN x = (x = NaN)"

definition Math_round :: "number \<Rightarrow> number" where
  \<comment> \<open>the nearest integer, a tie going up\<close>
  "Math_round x = (case x of Finite a \<Rightarrow> Finite (of_int \<lfloor>a + 1 / 2\<rfloor>) | _ \<Rightarrow> x)"

definition Math_floor :: "number \<Rightarrow> number" where
  "Math_floor x = (case x of Finite a \<Rightarrow> Finite (of_int \<lfloor>a\<rfloor>) | _ \<Rightarrow> x)"

subsection \<open>\<open>parseFloat\<close>\<close>

text \<open>
  \<open>parseFloat\<close> strips leading white space and reads the longest prefix that is a
  \<open>StrDecimalLiteral\<close>: an optional sign, then \<open>Infinity\<close> or decimal digits with an
  optional fraction and an optional exponent. Whatever follows the prefix is ignored; with
  no such prefix the result is \<open>NaN\<close>. The value is the literal's, correctly rounded.
\<close>

definition read_exponent :: "string \<Rightarrow> int" where
  \<comment> \<open>the value of an \<open>ExponentPart\<close> the string starts with, 0 when it starts with none\<close>
  "read_exponent s =
     (case s of
        [] \<Rightarrow> 0
      | c # r \<Rightarrow>
          if c = CHR ''e'' \<or> c = CHR ''E'' then
            (case r of
               [] \<Rightarrow> 0
             | d # r' \<Rightarrow>
                 if d = CHR ''-'' then - digits_val 10 (takeWhile is_digit r')
                 else if d = CHR ''+'' then digits_val 10 (takeWhile is_digit r')
                 else digits_val 10 (takeWhile is_digit r))
          else 0)"

definition read_unsigned :: "string \<Rightarrow> rat option" where
  \<comment> \<open>the exact value of the longest decimal prefix (\<open>Infinity\<close> apart), \<open>None\<close> when there is none\<close>
  "read_unsigned s =
     (let ip = takeWhile is_digit s;
          r = dropWhile is_digit s;
          fp = (case r of [] \<Rightarrow> [] | c # r' \<Rightarrow> if c = CHR ''.'' then takeWhile is_digit r' else []);
          r2 = (case r of [] \<Rightarrow> [] | c # r' \<Rightarrow> if c = CHR ''.'' then dropWhile is_digit r' else r)
      in if ip = [] \<and> fp = [] then None
         else Some (of_int (digits_val 10 (ip @ fp)) * pow10 (read_exponent r2 - int (length fp))))"

definition read_literal :: "string \<Rightarrow> number" where
  "read_literal s =
     (if starts_with ''Infinity'' s then Infinity False
      else case read_unsigned s of None \<Rightarrow> NaN | Some v \<Rightarrow> round_double v)"

definition js_negate :: "number \<Rightarrow> number" where
  "js_negate x = (case x of NaN \<Rightarrow> NaN | Infinity s \<Rightarrow> Infinity (\<not> s) | Finite a \<Rightarrow> Finite (- a))"

definition parseFloat :: "string \<Rightarrow> number" where
  "parseFloat s =
     (case trim_start s of
        [] \<Rightarrow> NaN
      | c # r \<Rightarrow>
          if c = CHR ''-'' then js_negate (read_literal r)
          else if c = CHR ''+'' then read_literal r
          else read_literal (c # r))"


subsection \<open>\<open>Number.prototype.toString\<close>\<close>

text \<open>
  The decimal form of a finite positive double \<open>x\<close> is given by integers \<open>n\<close>, \<open>k\<close>, \<open>s\<close>
  with \<open>10 ^ (k - 1) \<le> s < 10 ^ k\<close> such that \<open>s * 10 ^ (n - k)\<close> rounds to \<open>x\<close>, \<open>k\<close> as small
  as possible and, among several \<open>s\<close>, the one closest to \<open>x\<close> (the even one on a tie).
  \<open>shortest_digits\<close> tries \<open>k = 1, 2, ...\<close>; for each \<open>k\<close> the two \<open>k\<close>-digit decimals
  around \<open>x\<close> are the only ones to try, since rounding is monotone. Seventeen digits always
  identify a double; the counter only makes the recursion structural.
\<close>

definition decimal_exponent :: "rat \<Rightarrow> int" where
  \<comment> \<open>for \<open>0 < a\<close>, the \<open>n\<close> with \<open>10 ^ (n - 1) \<le> a < 10 ^ n\<close>\<close>
  "decimal_exponent a =
     (if 1 \<le> a then int (length (show_nat \<lfloor>a\<rfloor>))
      else let n = 1 - int (length (show_nat \<lfloor>1 / a\<rfloor>))
           in if pow10 n \<le> a then n + 1 else n)"

fun shortest_digits :: "nat \<Rightarrow> nat \<Rightarrow> rat \<Rightarrow> int \<Rightarrow> int \<times> int" where
  "shortest_digits 0 k x n = (\<lfloor>x / pow10 (n - int k)\<rfloor>, n)"
| "shortest_digits (Suc fuel) k x n =
     (let t = n - int k;
          lo = \<lfloor>x / pow10 t\<rfloor>;
          hi = lo + 1;
          up = (if hi = 10 ^ k then (10 ^ (k - 1), n + 1) else (hi, n));
          lo_ok = (round_double (of_int lo * pow10 t) = Finite x);
          hi_ok = (round_double (of_int hi * pow10 t) = Finite x);
          dlo = x - of_int lo * pow10 t;
          dhi = of_int hi * pow10 t - x
      in if lo_ok \<and> hi_ok then
           (if dlo < dhi then (lo, n) else if dhi < dlo then up else if even lo then (lo, n) else up)
         else if lo_ok then (lo, n)
         else if hi_ok then up
         else shortest_digits fuel (k + 1) x n)"

definition show_exponent :: "int \<Rightarrow> string" where
  "show_exponent e = (if e < 0 then ''e-'' else ''e+'') @ show_nat \<bar>e\<bar>"

definition format_digits :: "string \<Rightarrow> int \<Rightarrow> string" where
  \<comment> \<open>the digits of \<open>s\<close> and the exponent \<open>n\<close>, laid out as \<open>Number::toString\<close> does\<close>
  "format_digits ds n =
     (let k = int (length ds)
      in if k \<le> n \<and> n \<le> 21 then ds @ replicate (nat (n - k)) CHR ''0''
         else if 0 < n \<and> n \<le> 21 then take (nat n) ds @ ''.'' @ drop (nat n) ds
         else if - 6 < n \<and> n \<le> 0 then ''0.'' @ replicate (nat (- n)) CHR ''0'' @ ds
         else if k = 1 then ds @ show_exponent (n - 1)
         else take 1 ds @ ''.'' @ drop 1 ds @ show_exponent (n - 1))"

definition show_positive :: "rat \<Rightarrow> string" where
  "show_positive x =
     (let (s, n) = shortest_digits 768 1 x (decimal_exponent x) in format_digits (show_nat s) n)"

definition number_to_string :: "number \<Rightarrow> string" where
  "number_to_string x =
     (case x of
        NaN \<Rightarrow> ''NaN''
      | Infinity s \<Rightarrow> if s then ''-Infinity'' else ''Infinity''
      | Finite a \<Rightarrow>
          if a = 0 then ''0''
          else if a < 0 then CHR ''-'' # show_positive (- a)
          else show_positive a)"

subsection \<open>\<open>BigInt\<close>\<close>

text \<open>
  \<open>BigInt(string)\<close> trims white space on both sides and reads a \<open>StrIntegerLiteral\<close>: the
  empty string is 0, decimal digits may carry a sign, and the prefixes \<open>0x\<close>, \<open>0o\<close>, \<open>0b\<close>
  (either case, no sign) select another base. Anything else throws a \<open>SyntaxError\<close>,
  here \<open>None\<close>. Division truncates towards zero and the remainder has the dividend's sign.
\<close>

definition is_octal :: "char \<Rightarrow> bool" where
  "is_octal c = (CHR ''0'' \<le> c \<and> c \<le> CHR ''7'')"

definition is_binary :: "char \<Rightarrow> bool" where
  "is_binary c = (c = CHR ''0'' \<or> c = CHR ''1'')"

definition read_digits :: "(char \<Rightarrow> bool) \<Rightarrow> int \<Rightarrow> string \<Rightarrow> int option" where
  "read_digits ok b ds = (if ds \<noteq> [] \<and> list_all ok ds then Some (digits_val b ds) else None)"

definition BigInt :: "string \<Rightarrow> int option" where
  "BigInt str =
     (case trim str of
        [] \<Rightarrow> Some 0
      | c # r \<Rightarrow>
          if c = CHR ''-'' then map_option uminus (read_digits is_digit 10 r)
          else if c = CHR ''+'' then read_digits is_digit 10 r
          else if c = CHR ''0'' \<and> r \<noteq> [] \<and> (hd r = CHR ''x'' \<or> hd r = CHR ''X'')
            then read_digits is_hex 16 (tl r)
          else if c = CHR ''0'' \<and> r \<noteq> [] \<and> (hd r = CHR ''o'' \<or> hd r = CHR ''O'')
            then read_digits is_octal 8 (tl r)
          else if c = CHR ''0'' \<and> r \<noteq> [] \<and> (hd r = CHR ''b'' \<or> hd r = CHR ''B'')
            then read_digits is_binary 2 (tl r)
          else read_digits is_digit 10 (c # r))"

definition bigint_div :: "int \<Rightarrow> int \<Rightarrow> int" where
  "bigint_div a b = sgn a * sgn b * (\<bar>a\<bar> div \<bar>b\<bar>)"

definition bigint_rem :: "int \<Rightarrow> int \<Rightarrow> int" where
  "bigint_rem a b = sgn a * (\<bar>a\<bar> mod \<bar>b\<bar>)"


section \<open>JSON\<close>

text \<open>
  The values \<open>JSON.parse\<close> returns and \<open>JSON.stringify\<close> writes. An object is the list of
  its members in the order of the text; reading a property takes the last member of that
  name, as a repeated name overwrites the earlier one.
\<close>

datatype json =
    JNull
  | JBool bool
  | JNum number
  | JStr string
  | JArr "json list"
  | JObj "(string \<times> json) list"

fun json_get :: "string \<Rightarrow> json \<Rightarrow> json option" where
  \<comment> \<open>\<open>obj.name\<close> for the names used below; \<open>None\<close> is \<open>undefined\<close>\<close>
  "json_get k (JObj kvs) = map_of (rev kvs) k"
| "json_get k _ = None"

definition is_object :: "json option \<Rightarrow> bool" where
  \<comment> \<open>\<open>typeof v === 'object' && v !== null\<close>: arrays are objects too\<close>
  "is_object v = (case v of Some (JObj _) \<Rightarrow> True | Some (JArr _) \<Rightarrow> True | _ \<Rightarrow> False)"

subsection \<open>\<open>JSON.stringify\<close>\<close>

definition hex_digit :: "nat \<Rightarrow> char" where
  "hex_digit d = (if d < 10 then char_of (48 + d) else char_of (87 + d))"

definition quote_char :: "char \<Rightarrow> string" where
  "quote_char c =
     (if c = CHR 0x22 then [CHR 0x5C, CHR 0x22]
      else if c = CHR 0x5C then [CHR 0x5C, CHR 0x5C]
      else if c = CHR 0x08 then [CHR 0x5C, CHR ''b'']
      else if c = CHR 0x0C then [CHR 0x5C, CHR ''f'']
      else if c = CHR 0x0A then [CHR 0x5C, CHR ''n'']
      else if c = CHR 0x0D then [CHR 0x5C, CHR ''r'']
      else if c = CHR 0x09 then [CHR 0x5C, CHR ''t'']
      else if (of_char c :: nat) < 32 then
        [CHR 0x5C, CHR ''u'', CHR ''0'', CHR ''0'', hex_digit (of_char c div 16), hex_digit (of_char c mod 16)]
      else [c])"

definition quote :: "string \<Rightarrow> string" where
  "quote s = CHR 0x22 # concat (map quote_char s) @ [CHR 0x22]"

fun join :: "string list \<Rightarrow> string" where
  \<comment> \<open>the parts, with a comma between two of them\<close>
  "join [] = []"
| "join [x] = x"
| "join (x # y # ys) = x @ CHR '','' # join (y # ys)"

primrec stringify :: "json \<Rightarrow> string" where
  "stringify JNull = ''null''"
| "stringify (JBool b) = (if b then ''true'' else ''false'')"
| "stringify (JNum x) = (case x of Finite a \<Rightarrow> number_to_string x | _ \<Rightarrow> ''null'')"
| "stringify (JStr s) = quote s"
| "stringify (JArr xs) = CHR ''['' # join (map stringify xs) @ '']''"
| "stringify (JObj kvs) =
     CHR ''{'' # join (map (\<lambda>kv. quote (fst kv) @ CHR '':'' # snd kv) (map (map_prod id stringify) kvs)) @ ''}''"

subsection \<open>\<open>JSON.parse\<close>\<close>

definition is_json_ws :: "char \<Rightarrow> bool" where
  "is_json_ws c = (c = CHR 0x20 \<or> c = CHR 0x09 \<or> c = CHR 0x0A \<or> c = CHR 0x0D)"

definition skip_ws :: "string \<Rightarrow> string" where
  "skip_ws s = dropWhile is_json_ws s"

definition utf8_of_code_unit :: "nat \<Rightarrow> string" where
  \<comment> \<open>a \<open>\uXXXX\<close> escape, as the bytes of its code point; a surrogate pair written as two
      escapes is not joined into one four-byte character\<close>
  "utf8_of_code_unit u =
     (if u < 0x80 then [char_of u]
      else if u < 0x800 then [char_of (0xC0 + u div 64), char_of (0x80 + u mod 64)]
      else [char_of (0xE0 + u div 4096), char_of (0x80 + u div 64 mod 64), char_of (0x80 + u mod 64)])"

fun parse_chars :: "string \<Rightarrow> (string \<times> string) option" where
  \<comment> \<open>the characters of a string literal after its opening quote, and what follows the
      closing quote\<close>
  "parse_chars [] = None"
| "parse_chars (c # r) =
     (if c = CHR 0x22 then Some ([], r)
      else if c = CHR 0x5C then
        (case r of
           [] \<Rightarrow> None
         | e # r' \<Rightarrow>
             if e = CHR ''u'' then
               (case r' of
                  a # b # c' # d # r'' \<Rightarrow>
                    if is_hex a \<and> is_hex b \<and> is_hex c' \<and> is_hex d then
                      map_option (\<lambda>(s, t). (utf8_of_code_unit (nat (digits_val 16 [a, b, c', d])) @ s, t))
                        (parse_chars r'')
                    else None
                | _ \<Rightarrow> None)
             else
               (case map_of [(CHR 0x22, CHR 0x22), (CHR 0x5C, CHR 0x5C), (CHR ''/'', CHR ''/''),
                    (CHR ''b'', CHR 0x08), (CHR ''f'', CHR 0x0C), (CHR ''n'', CHR 0x0A),
                    (CHR ''r'', CHR 0x0D), (CHR ''t'', CHR 0x09)] e of
                  None \<Rightarrow> None
                | Some x \<Rightarrow> map_option (\<lambda>(s, t). (x # s, t)) (parse_chars r')))
      else if (of_char c :: nat) < 32 then None
      else map_option (\<lambda>(s, t). (c # s, t)) (parse_chars r))"

definition parse_number :: "string \<Rightarrow> (number \<times> string) option" where
  \<comment> \<open>\<open>-? (0 | [1-9][0-9]*) (. [0-9]+)? ([eE] [+-]? [0-9]+)?\<close>, the longest such prefix\<close>
  "parse_number s =
     (let neg = (s \<noteq> [] \<and> hd s = CHR ''-'');
          s1 = (if neg then tl s else s);
          ip = (if s1 \<noteq> [] \<and> hd s1 = CHR ''0'' then ''0'' else takeWhile is_digit s1);
          r = drop (length ip) s1;
          fp = (case r of
                  c # d # r' \<Rightarrow> if c = CHR ''.'' \<and> is_digit d then takeWhile is_digit (d # r') else []
                | _ \<Rightarrow> []);
          r2 = (if fp = [] then r else drop (length fp + 1) r);
          has_exp = (case r2 of
                  c # d # r' \<Rightarrow>
                    (c = CHR ''e'' \<or> c = CHR ''E'') \<and>
                    (is_digit d \<or> ((d = CHR ''+'' \<or> d = CHR ''-'') \<and> r' \<noteq> [] \<and> is_digit (hd r')))
                | _ \<Rightarrow> False);
          ex = (if has_exp then read_exponent r2 else 0);
          r3 = (if has_exp
                then dropWhile is_digit (if is_digit (hd (tl r2)) then tl r2 else tl (tl r2))
                else r2);
          v = round_double (of_int (digits_val 10 (ip @ fp)) * pow10 (ex - int (length fp)))
      in if ip = [] then None else Some (if neg then js_negate v else v, r3))"

fun parse_value :: "nat \<Rightarrow> string \<Rightarrow> (json \<times> string) option"
  and parse_elems :: "nat \<Rightarrow> string \<Rightarrow> (json list \<times> string) option"
  and parse_members :: "nat \<Rightarrow> string \<Rightarrow> ((string \<times> json) list \<times> string) option"
where
  "parse_value 0 s = None"
| "parse_value (Suc n) s =
     (case skip_ws s of
        [] \<Rightarrow> None
      | c # r \<Rightarrow>
          if c = CHR ''{'' then
            (case skip_ws r of
               [] \<Rightarrow> None
             | d # r' \<Rightarrow>
                 if d = CHR ''}'' then Some (JObj [], r')
                 else map_option (\<lambda>(kvs, t). (JObj kvs, t)) (parse_members n r))
          else if c = CHR ''['' then
            (case skip_ws r of
               [] \<Rightarrow> None
             | d # r' \<Rightarrow>
                 if d = CHR '']'' then Some (JArr [], r')
                 else map_option (\<lambda>(vs, t). (JArr vs, t)) (parse_elems n r))
          else if c = CHR 0x22 then map_option (\<lambda>(x, t). (JStr x, t)) (parse_chars r)
          else if c = CHR ''-'' \<or> is_digit c then
            map_option (\<lambda>(x, t). (JNum x, t)) (parse_number (c # r))
          else if starts_with ''true'' (c # r) then Some (JBool True, drop 4 (c # r))
          else if starts_with ''false'' (c # r) then Some (JBool False, drop 5 (c # r))
          else if starts_with ''null'' (c # r) then Some (JNull, drop 4 (c # r))
          else None)"
| "parse_elems 0 s = None"
| "parse_elems (Suc n) s =
     (case parse_value n s of
        None \<Rightarrow> None
      | Some (v, r) \<Rightarrow>
          (case skip_ws r of
             [] \<Rightarrow> None
           | c # r' \<Rightarrow>
               if c = CHR '','' then map_option (\<lambda>(vs, t). (v # vs, t)) (parse_elems n r')
               else if c = CHR '']'' then Some ([v], r')
               else None))"
| "parse_members 0 s = None"
| "parse_members (Suc n) s =
     (case skip_ws s of
        [] \<Rightarrow> None
      | q # r \<Rightarrow>
          if q \<noteq> CHR 0x22 then None
          else
            (case parse_chars r of
               None \<Rightarrow> None
             | Some (k, r1) \<Rightarrow>
                 (case skip_ws r1 of
                    [] \<Rightarrow> None
                  | c # r2 \<Rightarrow>
                      if c \<noteq> CHR '':'' then None
                      else
                        (case parse_value n r2 of
                           None \<Rightarrow> None
                         | Some (v, r3) \<Rightarrow>
                             (case skip_ws r3 of
                                [] \<Rightarrow> None
                              | d # r4 \<Rightarrow>
                                  if d = CHR '','' then
                                    map_option (\<lambda>(kvs, t). ((k, v) # kvs, t)) (parse_members n r4)
                                  else if d = CHR ''}'' then Some ([(k, v)], r4)
                                  else None)))))"

definition JSON_parse :: "string \<Rightarrow> json option" where
  \<comment> \<open>\<open>None\<close> is a \<open>SyntaxError\<close>. The counter is an upper bound of the nesting and of the
      number of members, which the length of the text bounds.\<close>
  "JSON_parse s =
     (case parse_value (Suc (length s)) s of
        None \<Rightarrow> None
      | Some (v, r) \<Rightarrow> if skip_ws r = [] then Some v else None)"

section \<open>Base64\<close>

text \<open>
  \<open>buf.toString('base64')\<close> writes the standard alphabet with padding.
  \<open>Buffer.from(s, 'base64')\<close> never fails: it reads the characters of the standard and of
  the URL-safe alphabet, skips every other character, and stops at the first \<open>=\<close>; a last
  group of two or three characters gives one or two bytes.
\<close>

definition b64_char :: "nat \<Rightarrow> char" where
  "b64_char i =
     (if i < 26 then char_of (65 + i)
      else if i < 52 then char_of (71 + i)
      else if i < 62 then char_of (i - 4)
      else if i = 62 then CHR ''+'' else CHR ''/'')"

definition unbase64 :: "char \<Rightarrow> nat option" where
  "unbase64 c =
     (if CHR ''A'' \<le> c \<and> c \<le> CHR ''Z'' then Some (of_char c - 65)
      else if CHR ''a'' \<le> c \<and> c \<le> CHR ''z'' then Some (of_char c - 71)
      else if CHR ''0'' \<le> c \<and> c \<le> CHR ''9'' then Some (of_char c + 4)
      else if c = CHR ''+'' \<or> c = CHR ''-'' then Some 62
      else if c = CHR ''/'' \<or> c = CHR ''_'' then Some 63
      else None)"

fun base64_encode :: "string \<Rightarrow> string" where
  "base64_encode [] = []"
| "base64_encode [a] =
     (let x = (of_char a :: nat) in [b64_char (x div 4), b64_char (x mod 4 * 16), CHR ''='', CHR ''=''])"
| "base64_encode [a, b] =
     (let x = (of_char a :: nat); y = (of_char b :: nat)
      in [b64_char (x div 4), b64_char (x mod 4 * 16 + y div 16), b64_char (y mod 16 * 4), CHR ''=''])"
| "base64_encode (a # b # c # r) =
     (let x = (of_char a :: nat); y = (of_char b :: nat); z = (of_char c :: nat)
      in b64_char (x div 4) # b64_char (x mod 4 * 16 + y div 16) #
         b64_char (y mod 16 * 4 + z div 64) # b64_char (z mod 64) # base64_encode r)"

fun sextets :: "string \<Rightarrow> nat list" where
  \<comment> \<open>the values of the alphabet's characters before the first \<open>=\<close>\<close>
  "sextets [] = []"
| "sextets (c # r) =
     (if c = CHR ''='' then []
      else case unbase64 c of None \<Rightarrow> sextets r | Some v \<Rightarrow> v # sextets r)"

fun bytes_of_sextets :: "nat list \<Rightarrow> string" where
  "bytes_of_sextets (p # q # r # s # rest) =
     char_of (p * 4 + q div 16) # char_of (q mod 16 * 16 + r div 4) # char_of (r mod 4 * 64 + s) #
     bytes_of_sextets rest"
| "bytes_of_sextets [p, q, r] = [char_of (p * 4 + q div 16), char_of (q mod 16 * 16 + r div 4)]"
| "bytes_of_sextets [p, q] = [char_of (p * 4 + q div 16)]"
| "bytes_of_sextets _ = []"

definition base64_decode :: "string \<Rightarrow> string" where
  "base64_decode s = bytes_of_sextets (sextets s)"


section \<open>Protocol types\<close>

text \<open>
  The interfaces of \<open>types/index.ts\<close>. An optional property is an \<open>option\<close>; a field whose
  name another record uses carries a prefix. A thrown value is its class and its message.
\<close>

datatype exn = Error string | SyntaxError string | FacilitatorError string

fun exn_message :: "exn \<Rightarrow> string" where
  "exn_message (Error m) = m"
| "exn_message (SyntaxError m) = m"
| "exn_message (FacilitatorError m) = m"

record PaymentRequirements =
  scheme :: string
  network :: string
  asset :: string
  maxAmountRequired :: string
  payTo :: string
  description :: "string option"
  resource :: "string option"
  mimeType :: "string option"
  outputSchema :: "json option"

record TransferAuthorization =
  auth_from :: string
  auth_to :: string
  auth_value :: string
  validAfter :: number
  validBefore :: number
  nonce :: string

record SignedAuthorization =
  signature :: string
  authorization :: TransferAuthorization

record PaymentPayload =
  x402Version :: string
  pay_scheme :: string
  pay_network :: string
  payload :: SignedAuthorization

record SettlementResponse =
  success :: bool
  transaction :: "string option"
  settle_network :: string
  payer :: string
  timestamp :: "number option"
  errorReason :: "string option"

record PaymentReceipt =
  receipt_payer :: string
  amount :: string
  transactionHash :: string
  receipt_network :: string
  receipt_timestamp :: number
  receipt_resource :: string

datatype error_code =
  INVALID_SIGNATURE | EXPIRED | INSUFFICIENT_FUNDS | SETTLEMENT_FAILED | NETWORK_ERROR | INVALID_PAYLOAD

record X402Error =
  code :: error_code
  message :: string
  cause :: "exn option"

record RouteConfig =
  path :: string
  price :: string
  route_description :: "string option"
  methods :: "string list option"

text \<open>A callback is modelled by whether it throws (or rejects) on its argument.\<close>

record X402Config =
  recipient :: string
  config_price :: "string option"
  routes :: "RouteConfig list option"
  config_description :: "string option"
  config_network :: "string option"
  onPayment :: "(PaymentReceipt \<Rightarrow> bool) option"
  onError :: "(X402Error \<Rightarrow> bool) option"



definition HEADERS_PAYMENT_REQUIRED :: string where
  "HEADERS_PAYMENT_REQUIRED = ''x-payment-required''"

definition HEADERS_PAYMENT :: string where
  "HEADERS_PAYMENT = ''x-payment''"

definition HEADERS_PAYMENT_RESPONSE :: string where
  "HEADERS_PAYMENT_RESPONSE = ''x-payment-response''"

subsection \<open>Records as JSON values\<close>

text \<open>
  What \<open>JSON.stringify\<close> sees of a record: its properties in the order of the interface,
  a property that is \<open>undefined\<close> left out.
\<close>

definition opt_member :: "string \<Rightarrow> ('a \<Rightarrow> json) \<Rightarrow> 'a option \<Rightarrow> (string \<times> json) list" where
  "opt_member k f v = (case v of None \<Rightarrow> [] | Some x \<Rightarrow> [(k, f x)])"

definition json_of_requirements :: "PaymentRequirements \<Rightarrow> json" where
  "json_of_requirements r =
     JObj ([(''scheme'', JStr (scheme r)), (''network'', JStr (network r)),
            (''asset'', JStr (asset r)), (''maxAmountRequired'', JStr (maxAmountRequired r)),
            (''payTo'', JStr (payTo r))]
           @ opt_member ''description'' JStr (description r)
           @ opt_member ''resource'' JStr (resource r)
           @ opt_member ''mimeType'' JStr (mimeType r)
           @ opt_member ''outputSchema'' id (outputSchema r))"

definition json_of_authorization :: "TransferAuthorization \<Rightarrow> json" where
  "json_of_authorization a =
     JObj [(''from'', JStr (auth_from a)), (''to'', JStr (auth_to a)),
           (''value'', JStr (auth_value a)), (''validAfter'', JNum (validAfter a)),
           (''validBefore'', JNum (validBefore a)), (''nonce'', JStr (nonce a))]"

definition json_of_payload :: "PaymentPayload \<Rightarrow> json" where
  "json_of_payload p =
     JObj [(''x402Version'', JStr (x402Version p)), (''scheme'', JStr (pay_scheme p)),
           (''network'', JStr (pay_network p)),
           (''payload'',
            JObj [(''signature'', JStr (signature (payload p))),
                  (''authorization'', json_of_authorization (authorization (payload p)))])]"


definition json_of_settlement :: "SettlementResponse \<Rightarrow> json" where
  "json_of_settlement r =
     JObj ([(''success'', JBool (success r))]
           @ opt_member ''transaction'' JStr (transaction r)
           @ [(''network'', JStr (settle_network r)), (''payer'', JStr (payer r))]
           @ opt_member ''timestamp'' JNum (timestamp r)
           @ opt_member ''errorReason'' JStr (errorReason r))"

text \<open>
  The typed reading of a parsed payload, \<open>parsed as PaymentPayload\<close>. The cast checks
  nothing; on a value that passed \<open>validatePaymentPayload\<close> every property read here
  exists with the type shown, and the other branches are never taken.
\<close>

definition str_prop :: "string \<Rightarrow> json \<Rightarrow> string" where
  "str_prop k j = (case json_get k j of Some (JStr s) \<Rightarrow> s | _ \<Rightarrow> [])"

definition num_prop :: "string \<Rightarrow> json \<Rightarrow> number" where
  "num_prop k j = (case json_get k j of Some (JNum x) \<Rightarrow> x | _ \<Rightarrow> NaN)"

definition obj_prop :: "string \<Rightarrow> json \<Rightarrow> json" where
  "obj_prop k j = (case json_get k j of Some v \<Rightarrow> v | None \<Rightarrow> JNull)"

definition authorization_of_json :: "json \<Rightarrow> TransferAuthorization" where
  "authorization_of_json j =
     \<lparr>auth_from = str_prop ''from'' j, auth_to = str_prop ''to'' j, auth_value = str_prop ''value'' j,
      validAfter = num_prop ''validAfter'' j, validBefore = num_prop ''validBefore'' j,
      nonce = str_prop ''nonce'' j\<rparr>"

definition payload_of_json :: "json \<Rightarrow> PaymentPayload" where
  "payload_of_json j =
     \<lparr>x402Version = str_prop ''x402Version'' j, pay_scheme = str_prop ''scheme'' j,
      pay_network = str_prop ''network'' j,
      payload =
        \<lparr>signature = str_prop ''signature'' (obj_prop ''payload'' j),
         authorization = authorization_of_json (obj_prop ''authorization'' (obj_prop ''payload'' j))\<rparr>\<rparr>"

section \<open>The codec (\<open>codec/PaymentCodec.ts\<close>)\<close>

subsection \<open>Validation helpers\<close>

definition isValidAddress :: "string \<Rightarrow> bool" where
  \<comment> \<open>\<open>/^0x[a-fA-F0-9]{40}$/\<close>\<close>
  "isValidAddress addr = (length addr = 42 \<and> take 2 addr = ''0x'' \<and> list_all is_hex (drop 2 addr))"

definition isValidAmount :: "string \<Rightarrow> bool" where
  \<comment> \<open>\<open>/^\d+$/.test(amount) && BigInt(amount) >= 0\<close>; \<open>BigInt\<close> reads every digit string\<close>
  "isValidAmount amt =
     (amt \<noteq> [] \<and> list_all is_digit amt \<and> (case BigInt amt of Some v \<Rightarrow> 0 \<le> v | None \<Rightarrow> False))"

definition isValidSignature :: "string \<Rightarrow> bool" where
  \<comment> \<open>\<open>/^0x[a-fA-F0-9]{130}$/\<close>\<close>
  "isValidSignature sig = (length sig = 132 \<and> take 2 sig = ''0x'' \<and> list_all is_hex (drop 2 sig))"

definition isValidNonce :: "string \<Rightarrow> bool" where
  \<comment> \<open>\<open>/^0x[a-fA-F0-9]{64}$/\<close>\<close>
  "isValidNonce n = (length n = 66 \<and> take 2 n = ''0x'' \<and> list_all is_hex (drop 2 n))"

definition is_string_with :: "(string \<Rightarrow> bool) \<Rightarrow> json option \<Rightarrow> bool" where
  \<comment> \<open>\<open>typeof v === 'string' && ok(v)\<close>\<close>
  "is_string_with ok v = (case v of Some (JStr s) \<Rightarrow> ok s | _ \<Rightarrow> False)"

definition is_nonneg_number :: "json option \<Rightarrow> bool" where
  \<comment> \<open>\<open>typeof v === 'number' && !(v < 0)\<close>\<close>
  "is_nonneg_number v = (case v of Some (JNum x) \<Rightarrow> \<not> js_less x (Finite 0) | _ \<Rightarrow> False)"

text \<open>Each validator returns the error it throws, \<open>None\<close> when it returns normally.\<close>

definition validatePaymentRequirements :: "json \<Rightarrow> exn option" where
  "validatePaymentRequirements obj =
     (if \<not> is_object (Some obj) then Some (Error ''Payment requirement must be an object'')
      else if json_get ''scheme'' obj \<noteq> Some (JStr ''exact'')
        then Some (Error ''Only \"exact\" scheme is supported'')
      else if \<not> is_string_with (\<lambda>s. s \<noteq> []) (json_get ''network'' obj)
        then Some (Error ''Invalid or missing network'')
      else if \<not> is_string_with isValidAddress (json_get ''asset'' obj)
        then Some (Error ''Invalid or missing asset address'')
      else if \<not> is_string_with isValidAmount (json_get ''maxAmountRequired'' obj)
        then Some (Error ''Invalid or missing maxAmountRequired'')
      else if \<not> is_string_with isValidAddress (json_get ''payTo'' obj)
        then Some (Error ''Invalid or missing payTo address'')
      else None)"

definition validateAuthorization :: "json \<Rightarrow> exn option" where
  "validateAuthorization obj =
     (if \<not> is_object (Some obj) then Some (Error ''Authorization must be an object'')
      else if \<not> is_string_with isValidAddress (json_get ''from'' obj)
        then Some (Error ''Invalid or missing from address'')
      else if \<not> is_string_with isValidAddress (json_get ''to'' obj)
        then Some (Error ''Invalid or missing to address'')
      else if \<not> is_string_with isValidAmount (json_get ''value'' obj)
        then Some (Error ''Invalid or missing value'')
      else if \<not> is_nonneg_number (json_get ''validAfter'' obj)
        then Some (Error ''Invalid or missing validAfter'')
      else if \<not> is_nonneg_number (json_get ''validBefore'' obj)
        then Some (Error ''Invalid or missing validBefore'')
      else if \<not> is_string_with isValidNonce (json_get ''nonce'' obj)
        then Some (Error ''Invalid or missing nonce'')
      else None)"

definition validatePaymentPayload :: "json \<Rightarrow> exn option" where
  "validatePaymentPayload obj =
     (if \<not> is_object (Some obj) then Some (Error ''Payment payload must be an object'')
      else if json_get ''x402Version'' obj \<noteq> Some (JStr ''2.0'') \<and>
              json_get ''x402Version'' obj \<noteq> Some (JStr ''1'')
        then Some (Error ''Invalid x402Version'')
      else if json_get ''scheme'' obj \<noteq> Some (JStr ''exact'')
        then Some (Error ''Only \"exact\" scheme is supported'')
      else if \<not> is_string_with (\<lambda>s. s \<noteq> []) (json_get ''network'' obj)
        then Some (Error ''Invalid or missing network'')
      else if \<not> is_object (json_get ''payload'' obj)
        then Some (Error ''Invalid or missing payload object'')
      else if \<not> is_string_with isValidSignature (json_get ''signature'' (obj_prop ''payload'' obj))
        then Some (Error ''Invalid or missing signature'')
      else if \<not> is_object (json_get ''authorization'' (obj_prop ''payload'' obj))
        then Some (Error ''Invalid or missing authorization'')
      else validateAuthorization (obj_prop ''authorization'' (obj_prop ''payload'' obj)))"

subsection \<open>Encoding and decoding\<close>

definition encodePaymentRequirements :: "PaymentRequirements list \<Rightarrow> string" where
  "encodePaymentRequirements requirements =
     base64_encode (stringify (JArr (map json_of_requirements requirements)))"

fun validate_each :: "json list \<Rightarrow> exn option" where
  \<comment> \<open>\<open>for (const req of parsed) validatePaymentRequirements(req)\<close>\<close>
  "validate_each [] = None"
| "validate_each (req # rest) =
     (case validatePaymentRequirements req of Some e \<Rightarrow> Some e | None \<Rightarrow> validate_each rest)"

definition decodePaymentRequirements :: "string \<Rightarrow> exn + json list" where
  "decodePaymentRequirements encoded =
     (case JSON_parse (base64_decode encoded) of
        None \<Rightarrow> Inl (Error ''Invalid Base64 or JSON in payment requirements'')
      | Some parsed \<Rightarrow>
          (case parsed of
             JArr reqs \<Rightarrow> (case validate_each reqs of Some e \<Rightarrow> Inl e | None \<Rightarrow> Inr reqs)
           | _ \<Rightarrow> Inl (Error ''Payment requirements must be an array'')))"

definition decodePaymentPayload :: "string \<Rightarrow> exn + json" where
  "decodePaymentPayload encoded =
     (case JSON_parse (base64_decode encoded) of
        None \<Rightarrow> Inl (Error ''Invalid Base64 or JSON in payment payload'')
      | Some parsed \<Rightarrow>
          (case validatePaymentPayload parsed of Some e \<Rightarrow> Inl e | None \<Rightarrow> Inr parsed))"

definition encodePaymentPayload :: "PaymentPayload \<Rightarrow> string" where
  "encodePaymentPayload p = base64_encode (stringify (json_of_payload p))"

definition encodeSettlementResponse :: "SettlementResponse \<Rightarrow> string" where
  "encodeSettlementResponse response = base64_encode (stringify (json_of_settlement response))"

definition decodeSettlementResponse :: "string \<Rightarrow> exn + json" where
  "decodeSettlementResponse encoded =
     (case JSON_parse (base64_decode encoded) of
        None \<Rightarrow> Inl (Error ''Invalid Base64 or JSON in settlement response'')
      | Some parsed \<Rightarrow> Inr parsed)"

definition createPaymentRequirements ::
  "string \<Rightarrow> string \<Rightarrow> string \<Rightarrow> string \<Rightarrow> string option \<Rightarrow> string option \<Rightarrow> PaymentRequirements" where
  "createPaymentRequirements net ast amt rcpt descr res =
     \<lparr>scheme = ''exact'', network = net, asset = ast, maxAmountRequired = amt, payTo = rcpt,
      description = descr, resource = res, mimeType = None, outputSchema = None\<rparr>"

subsection \<open>Amount conversion\<close>

definition usdToBaseUnits :: "string \<Rightarrow> exn + string" where
  "usdToBaseUnits usdPrice =
     (let price = parseFloat usdPrice
      in if isNaN price \<or> js_less price (Finite 0) then Inl (Error (''Invalid USD price: '' @ usdPrice))
         else Inr (number_to_string (Math_round (js_times price (Finite 1000000)))))"

definition baseUnitsToUsd :: "string \<Rightarrow> exn + string" where
  "baseUnitsToUsd baseUnits =
     (case BigInt baseUnits of
        None \<Rightarrow> Inl (SyntaxError (''Cannot convert '' @ baseUnits @ '' to a BigInt''))
      | Some units \<Rightarrow>
          let divisor = 1000000;
              wholePart = bigint_div units divisor;
              fractionalPart = bigint_rem units divisor;
              fractionalStr = padStart 6 CHR ''0'' (show_int fractionalPart);
              trimmed = strip_trailing_zeros fractionalStr;
              trimmed = (if length trimmed < 2 then take 2 fractionalStr else trimmed)
          in Inr (show_int wholePart @ ''.'' @ trimmed))"


section \<open>The middleware (\<open>middleware/x402Middleware.ts\<close>)\<close>

subsection \<open>Route patterns\<close>

text \<open>
  \<open>pathToRegex\<close> rewrites the path in three passes and compiles \<open>^pattern$\<close>. The source
  of the pattern is kept as a string; \<open>regex_atoms\<close> reads the only forms the three passes
  can produce: an escaped character, \<open>.*\<close>, \<open>[^/]+\<close>, and a character standing for itself.
\<close>

definition is_regex_special :: "char \<Rightarrow> bool" where
  \<comment> \<open>the class \<open>[.+?^${}()|[\]\\]\<close>\<close>
  "is_regex_special c = (c \<in> set ''.+?^${}()|[]'' \<or> c = CHR 0x5C)"

definition escape_special :: "string \<Rightarrow> string" where
  \<comment> \<open>\<open>.replace(/[.+?^${}()|[\]\\]/g, '\\$&')\<close>\<close>
  "escape_special s = concat (map (\<lambda>c. if is_regex_special c then [CHR 0x5C, c] else [c]) s)"

definition replace_stars :: "string \<Rightarrow> string" where
  \<comment> \<open>\<open>.replace(/\*/g, '.*')\<close>\<close>
  "replace_stars s = concat (map (\<lambda>c. if c = CHR ''*'' then ''.*'' else [c]) s)"

function replace_params :: "string \<Rightarrow> string" where
  \<comment> \<open>\<open>.replace(/:[\w]+/g, '[^/]+')\<close>: a colon and the longest run of word characters
      after it, when there is at least one\<close>
  "replace_params [] = []"
| "replace_params (c # r) =
     (if c = CHR '':'' \<and> takeWhile is_word_char r \<noteq> []
      then ''[^/]+'' @ replace_params (dropWhile is_word_char r)
      else c # replace_params r)"
  by pat_completeness auto
termination
  by (relation "measure length") (auto simp: less_Suc_eq_le length_dropWhile_le)

definition pathToRegex :: "string \<Rightarrow> string" where
  \<comment> \<open>the source of the pattern, between \<open>^\<close> and \<open>$\<close>\<close>
  "pathToRegex p = replace_params (replace_stars (escape_special p))"

datatype atom = Lit char | AnyStar | SegPlus

fun regex_atoms :: "string \<Rightarrow> atom list" where
  "regex_atoms [] = []"
| "regex_atoms (c # r) =
     (if c = CHR 0x5C then (case r of [] \<Rightarrow> [Lit c] | e # r' \<Rightarrow> Lit e # regex_atoms r')
      else if c = CHR ''.'' \<and> starts_with ''*'' r then AnyStar # regex_atoms (drop 1 r)
      else if c = CHR ''['' \<and> starts_with ''^/]+'' r then SegPlus # regex_atoms (drop 4 r)
      else Lit c # regex_atoms r)"

definition dot_matches :: "string \<Rightarrow> bool" where
  \<comment> \<open>\<open>.\<close> matches the character the string starts with: any but a line terminator
      (LF, CR, U+2028, U+2029)\<close>
  "dot_matches s =
     (s \<noteq> [] \<and> hd s \<noteq> CHR 0x0A \<and> hd s \<noteq> CHR 0x0D \<and>
      \<not> starts_with [CHR 0xE2, CHR 0x80, CHR 0xA8] s \<and> \<not> starts_with [CHR 0xE2, CHR 0x80, CHR 0xA9] s)"

fun atoms_match :: "atom list \<Rightarrow> string \<Rightarrow> bool" where
  \<comment> \<open>the atoms match the whole string\<close>
  "atoms_match [] s = (s = [])"
| "atoms_match (Lit c # as) [] = False"
| "atoms_match (Lit c # as) (x # xs) = (x = c \<and> atoms_match as xs)"
| "atoms_match (AnyStar # as) [] = atoms_match as []"
| "atoms_match (AnyStar # as) (x # xs) =
     (atoms_match as (x # xs) \<or> (dot_matches (x # xs) \<and> atoms_match (AnyStar # as) xs))"
| "atoms_match (SegPlus # as) [] = False"
| "atoms_match (SegPlus # as) (x # xs) =
     (x \<noteq> CHR ''/'' \<and> (atoms_match as xs \<or> atoms_match (SegPlus # as) xs))"

definition regex_test :: "string \<Rightarrow> string \<Rightarrow> bool" where
  \<comment> \<open>\<open>new RegExp(`^${pattern}$`).test(s)\<close>\<close>
  "regex_test pattern s = atoms_match (regex_atoms pattern) s"

record RouteMatcher =
  pattern :: string
  matcher_methods :: "string list"
  matcher_config :: RouteConfig

definition createRouteMatchers :: "X402Config \<Rightarrow> RouteMatcher list" where
  "createRouteMatchers config =
     (case routes config of
        None \<Rightarrow> []
      | Some rs \<Rightarrow>
          map (\<lambda>route.
                \<lparr>pattern = pathToRegex (path route),
                 matcher_methods =
                   map toUpperCase
                     (case methods route of
                        None \<Rightarrow> [''GET'', ''POST'', ''PUT'', ''DELETE'', ''PATCH'']
                      | Some ms \<Rightarrow> ms),
                 matcher_config = route\<rparr>) rs)"

fun first_match :: "string \<Rightarrow> string \<Rightarrow> RouteMatcher list \<Rightarrow> RouteConfig option" where
  \<comment> \<open>the loop of \<open>findMatchingRoute\<close>\<close>
  "first_match p m [] = None"
| "first_match p m (matcher # rest) =
     (if regex_test (pattern matcher) p \<and> toUpperCase m \<in> set (matcher_methods matcher)
      then Some (matcher_config matcher)
      else first_match p m rest)"

definition truthy :: "string option \<Rightarrow> bool" where
  \<comment> \<open>a string that is neither \<open>undefined\<close> nor empty\<close>
  "truthy v = (case v of None \<Rightarrow> False | Some s \<Rightarrow> s \<noteq> [])"

definition findMatchingRoute ::
  "string \<Rightarrow> string \<Rightarrow> RouteMatcher list \<Rightarrow> X402Config \<Rightarrow> RouteConfig option" where
  "findMatchingRoute p m matchers config =
     (if matchers \<noteq> [] then first_match p m matchers
      else if truthy (config_price config) then
        Some \<lparr>path = ''*'', price = the (config_price config),
              route_description = config_description config, methods = None\<rparr>
      else None)"

subsection \<open>Configuration\<close>





text \<open>What \<open>x402(config)\<close> computes before it returns the handler: the network, the asset
  and the route matchers, or the error it throws.\<close>

record Gate =
  gate_network :: string
  gate_asset :: string
  routeMatchers :: "RouteMatcher list"


subsection \<open>Payment validation\<close>

text \<open>
  \<open>validatePaymentAgainstRequirements\<close> returns a message or \<open>null\<close>; \<open>BigInt\<close> throws on a
  string that is no integer literal. \<open>now\<close> is \<open>Math.floor(Date.now() / 1000)\<close>.
\<close>

definition bigint_or_throw :: "string \<Rightarrow> exn + int" where
  "bigint_or_throw s =
     (case BigInt s of
        None \<Rightarrow> Inl (SyntaxError (''Cannot convert '' @ s @ '' to a BigInt''))
      | Some v \<Rightarrow> Inr v)"

definition unix_seconds :: "int \<Rightarrow> number" where
  \<comment> \<open>\<open>Math.floor(Date.now() / 1000)\<close>, \<open>Date.now()\<close> being the argument\<close>
  "unix_seconds ms = Math_floor (js_divide (num_of_int ms) (Finite 1000))"

definition validatePaymentAgainstRequirements ::
  "PaymentPayload \<Rightarrow> PaymentRequirements \<Rightarrow> number \<Rightarrow> exn + string option" where
  "validatePaymentAgainstRequirements p requirements now =
     (let auth = authorization (payload p) in
      if pay_network p \<noteq> network requirements then
        Inr (Some (''Network mismatch: expected '' @ network requirements @ '', got '' @ pay_network p))
      else if toLowerCase (auth_to auth) \<noteq> toLowerCase (payTo requirements) then
        Inr (Some (''Recipient mismatch: expected '' @ payTo requirements @ '', got '' @ auth_to auth))
      else
        case bigint_or_throw (auth_value auth) of
          Inl e \<Rightarrow> Inl e
        | Inr paymentAmount \<Rightarrow>
            (case bigint_or_throw (maxAmountRequired requirements) of
               Inl e \<Rightarrow> Inl e
             | Inr requiredAmount \<Rightarrow>
                 if paymentAmount < requiredAmount then
                   Inr (Some (''Insufficient amount: required '' @ maxAmountRequired requirements @
                              '', got '' @ auth_value auth))
                 else if js_less now (validAfter auth) then
                   Inr (Some (''Payment not yet valid (validAfter: '' @
                              number_to_string (validAfter auth) @ '')''))
                 else if js_less (validBefore auth) now then
                   Inr (Some (''Payment expired (validBefore: '' @
                              number_to_string (validBefore auth) @ '')''))
                 else Inr None))"

subsection \<open>The request handler\<close>

text \<open>
  A request is its path, its method and the value of its \<open>x-payment\<close> header. The handler's
  effects are collected in a record: the response (status, headers set, body), the receipt
  attached to the request, and the calls made, in order. The facilitator's \<open>settle\<close> is a
  function that returns a settlement or throws; \<open>Date.now()\<close> is read once by the payment
  validation and once for the receipt.
\<close>

record Request =
  req_path :: string
  req_method :: string
  payment_header :: "string option"

datatype event =
    Next
  | Settle PaymentPayload PaymentRequirements
  | OnPayment PaymentReceipt
  | OnError X402Error
  | ConsoleError

record Effects =
  status :: nat
  headers :: "(string \<times> string) list"
  body :: "json option"
  paymentReceipt :: "PaymentReceipt option"
  events :: "event list"

record World =
  settle :: "PaymentPayload \<Rightarrow> PaymentRequirements \<Rightarrow> exn + SettlementResponse"
  now_at_validation :: int
  now_at_receipt :: int

definition initial :: Effects where
  "initial = \<lparr>status = 200, headers = [], body = None, paymentReceipt = None, events = []\<rparr>"

definition handleError :: "X402Error \<Rightarrow> X402Config \<Rightarrow> Effects \<Rightarrow> Effects" where
  "handleError err config fx =
     (case onError config of
        None \<Rightarrow> fx
      | Some cb \<Rightarrow> fx\<lparr>events := events fx @ [OnError err] @ (if cb err then [ConsoleError] else [])\<rparr>)"

definition error_body :: "string \<Rightarrow> string \<Rightarrow> json" where
  "error_body e m = JObj [(''error'', JStr e), (''message'', JStr m)]"

definition unexpected :: "exn \<Rightarrow> X402Config \<Rightarrow> Effects \<Rightarrow> Effects" where
  \<comment> \<open>the outer \<open>catch\<close>\<close>
  "unexpected e config fx =
     (handleError \<lparr>code = NETWORK_ERROR, message = exn_message e, cause = Some e\<rparr> config fx)
       \<lparr>status := 500,
        body := Some (error_body ''Internal Error'' ''An error occurred while processing the payment'')\<rparr>"

definition reject :: "X402Error \<Rightarrow> string \<Rightarrow> string \<Rightarrow> X402Config \<Rightarrow> Effects \<Rightarrow> Effects" where
  \<comment> \<open>\<open>await handleError(...); res.status(402); res.json({error, message})\<close>\<close>
  "reject err e m config fx = (handleError err config fx)\<lparr>status := 402, body := Some (error_body e m)\<rparr>"

definition accept :: "X402Config \<Rightarrow> Gate \<Rightarrow> World \<Rightarrow> Request \<Rightarrow> RouteConfig \<Rightarrow> SettlementResponse \<Rightarrow>
    Effects \<Rightarrow> Effects" where
  \<comment> \<open>the path after a successful settlement\<close>
  "accept config gate world req routeConfig settlement fx =
     (let receipt =
            \<lparr>receipt_payer = payer settlement, amount = price routeConfig,
             transactionHash = (case transaction settlement of None \<Rightarrow> [] | Some t \<Rightarrow> t),
             receipt_network = gate_network gate,
             receipt_timestamp =
               (case timestamp settlement of None \<Rightarrow> num_of_int (now_at_receipt world) | Some t \<Rightarrow> t),
             receipt_resource = req_path req\<rparr>;
          fx1 = fx\<lparr>headers := headers fx @ [(HEADERS_PAYMENT_RESPONSE, encodeSettlementResponse settlement)],
                   paymentReceipt := Some receipt\<rparr>;
          fx2 = (case onPayment config of
                   None \<Rightarrow> fx1
                 | Some cb \<Rightarrow>
                     fx1\<lparr>events := events fx1 @ [OnPayment receipt] @
                                     (if cb receipt then [ConsoleError] else [])\<rparr>)
      in fx2\<lparr>events := events fx2 @ [Next]\<rparr>)"

definition handler :: "X402Config \<Rightarrow> Gate \<Rightarrow> World \<Rightarrow> Request \<Rightarrow> Effects" where
  "handler config gate world req =
     (case findMatchingRoute (req_path req) (req_method req) (routeMatchers gate) config of
        None \<Rightarrow> initial\<lparr>events := [Next]\<rparr>
      | Some routeConfig \<Rightarrow>
          if \<not> truthy (payment_header req) then
            (case usdToBaseUnits (price routeConfig) of
               Inl e \<Rightarrow> unexpected e config initial
             | Inr amt \<Rightarrow>
                 let requirements =
                       createPaymentRequirements (gate_network gate) (gate_asset gate) amt (recipient config)
                         (case route_description routeConfig of
                            None \<Rightarrow> config_description config
                          | Some d \<Rightarrow> Some d)
                         (Some (req_path req))
                 in initial
                      \<lparr>status := 402,
                       headers := [(HEADERS_PAYMENT_REQUIRED, encodePaymentRequirements [requirements]),
                                   (''Content-Type'', ''application/json'')],
                       body := Some (JObj
                         [(''error'', JStr ''Payment Required''),
                          (''message'', JStr (''This endpoint requires a payment of $'' @
                                              price routeConfig @ '' USD'')),
                          (''requirements'', JArr [json_of_requirements requirements])])\<rparr>)
          else
            (case decodePaymentPayload (the (payment_header req)) of
               Inl e \<Rightarrow>
                 reject \<lparr>code = INVALID_PAYLOAD, message = ''Invalid payment payload format'', cause = Some e\<rparr>
                   ''Invalid Payment'' ''Invalid payment payload format'' config initial
             | Inr parsed \<Rightarrow>
                 let paymentPayload = payload_of_json parsed in
                 (case usdToBaseUnits (price routeConfig) of
                    Inl e \<Rightarrow> unexpected e config initial
                  | Inr amt \<Rightarrow>
                      let requirements =
                            \<lparr>scheme = ''exact'', network = gate_network gate, asset = gate_asset gate,
                             maxAmountRequired = amt, payTo = recipient config, description = None,
                             resource = Some (req_path req), mimeType = None, outputSchema = None\<rparr>
                      in case validatePaymentAgainstRequirements paymentPayload requirements
                                (unix_seconds (now_at_validation world)) of
                           Inl e \<Rightarrow> unexpected e config initial
                         | Inr (Some validationError) \<Rightarrow>
                             reject \<lparr>code = INVALID_PAYLOAD, message = validationError, cause = None\<rparr>
                               ''Invalid Payment'' validationError config initial
                         | Inr None \<Rightarrow>
                             let fx = initial\<lparr>events := [Settle paymentPayload requirements]\<rparr>
                             in case settle world paymentPayload requirements of
                                  Inl e \<Rightarrow> unexpected e config fx
                                | Inr settlement \<Rightarrow>
                                    if \<not> success settlement then
                                      reject
                                        \<lparr>code = SETTLEMENT_FAILED,
                                         message = (case errorReason settlement of
                                                      None \<Rightarrow> ''Payment settlement failed''
                                                    | Some r \<Rightarrow> r),
                                         cause = None\<rparr>
                                        ''Settlement Failed''
                                        (case errorReason settlement of
                                           None \<Rightarrow> ''Payment could not be settled on-chain''
                                         | Some r \<Rightarrow> r)
                                        config fx
                                    else accept config gate world req routeConfig settlement fx)))"

text \<open>
  The requirements the handler verifies a payment against, as a function of what they are
  built from.
\<close>

definition verification_requirements :: "X402Config \<Rightarrow> Gate \<Rightarrow> Request \<Rightarrow> string \<Rightarrow> PaymentRequirements" where
  \<comment> \<open>the requirements the handler verifies a payment against, \<open>amt\<close> being
      \<open>usdToBaseUnits(routeConfig.price)\<close>\<close>
  "verification_requirements config gate req amt =
     \<lparr>scheme = ''exact'', network = gate_network gate, asset = gate_asset gate,
      maxAmountRequired = amt, payTo = recipient config, description = None,
      resource = Some (req_path req), mimeType = None, outputSchema = None\<rparr>"

section \<open>Example values\<close>

text \<open>Concrete records, used where a property is checked on an input.\<close>

definition example_recipient :: string where
  "example_recipient = ''0x1234567890123456789012345678901234567890''"

definition example_payload :: "string \<Rightarrow> string \<Rightarrow> PaymentPayload" where
  "example_payload net v =
     \<lparr>x402Version = ''2.0'', pay_scheme = ''exact'', pay_network = net,
      payload =
        \<lparr>signature = ''0x'' @ replicate 130 CHR ''a'',
         authorization =
           \<lparr>auth_from = ''0x0987654321098765432109876543210987654321'', auth_to = example_recipient,
            auth_value = v, validAfter = Finite 1704067200, validBefore = Finite 1704067500,
            nonce = ''0x'' @ replicate 64 CHR ''b''\<rparr>\<rparr>\<rparr>"

definition example_requirements :: PaymentRequirements where
  "example_requirements =
     \<lparr>scheme = ''exact'', network = ''eip155:8453'',
      asset = ''0x833589fCD6eDb6E08f4c7C32D4f71b54bdA02913'', maxAmountRequired = ''10000'',
      payTo = example_recipient, description = None, resource = Some ''/api/test'',
      mimeType = None, outputSchema = None\<rparr>"

definition rule_applies :: "RouteConfig \<Rightarrow> string \<Rightarrow> string \<Rightarrow> bool" where
  \<comment> \<open>the test of the loop of \<open>findMatchingRoute\<close>, on the matcher \<open>createRouteMatchers\<close>
      builds from a rule: its pattern matches the path and its methods hold the method\<close>
  "rule_applies route p m =
     (regex_test (pathToRegex (path route)) p \<and>
      toUpperCase m \<in> set (map toUpperCase
        (case methods route of
           None \<Rightarrow> [''GET'', ''POST'', ''PUT'', ''DELETE'', ''PATCH'']
         | Some ms \<Rightarrow> ms)))"

definition example_route :: "string \<Rightarrow> string \<Rightarrow> string list option \<Rightarrow> RouteConfig" where
  "example_route pt pr ms = \<lparr>path = pt, price = pr, route_description = None, methods = ms\<rparr>"

definition example_config :: "string option \<Rightarrow> RouteConfig list option \<Rightarrow> X402Config" where
  "example_config pr rs =
     \<lparr>recipient = example_recipient, config_price = pr, routes = rs, config_description = None,
      config_network = None, onPayment = None, onError = None\<rparr>"

definition example_settlement :: "string option \<Rightarrow> number option \<Rightarrow> SettlementResponse" where
  "example_settlement tx ts =
     \<lparr>success = True, transaction = tx, settle_network = ''eip155:8453'',
      payer = ''0x0987654321098765432109876543210987654321'', timestamp = ts, errorReason = None\<rparr>"

definition example_world :: "SettlementResponse \<Rightarrow> World" where
  "example_world st =
     \<lparr>settle = (\<lambda>p r. Inr st), now_at_validation = 1704067300123, now_at_receipt = 1704067302456\<rparr>"

definition example_gate :: "X402Config \<Rightarrow> Gate" where
  "example_gate config =
     \<lparr>gate_network = ''eip155:8453'', gate_asset = ''0x833589fCD6eDb6E08f4c7C32D4f71b54bdA02913'',
      routeMatchers = createRouteMatchers config\<rparr>"

definition follows_value :: "string \<Rightarrow> bool" where
  \<comment> \<open>what can follow a value inside the text \<open>JSON.stringify\<close> writes: the end, a comma or a
      closing bracket\<close>
  "follows_value r = (r = [] \<or> hd r = CHR '','' \<or> hd r = CHR '']'' \<or> hd r = CHR ''}'')"

definition number_roundtrips :: "number \<Rightarrow> bool" where
  \<comment> \<open>a finite number that the JSON number grammar reads back from its decimal form\<close>
  "number_roundtrips x =
     ((\<exists>a. x = Finite a) \<and>
      (\<forall>r. follows_value r \<longrightarrow> parse_number (number_to_string x @ r) = Some (x, r)))"

primrec printable :: "json \<Rightarrow> bool" where
  "printable JNull = True"
| "printable (JBool b) = True"
| "printable (JNum x) = number_roundtrips x"
| "printable (JStr s) = True"
| "printable (JArr xs) = list_all id (map printable xs)"
| "printable (JObj kvs) = list_all id (map snd (map (map_prod id printable) kvs))"

definition example_request :: "string option \<Rightarrow> Request" where
  "example_request h = \<lparr>req_path = ''/api/test'', req_method = ''GET'', payment_header = h\<rparr>"

definition example_protected :: "(PaymentReceipt \<Rightarrow> bool) option \<Rightarrow> X402Config" where
  \<comment> \<open>one protected route, \<open>/api/test\<close> at 0.01 dollars, and a payment callback\<close>
  "example_protected cb = (example_config None (Some [example_route ''/api/test'' ''0.01'' None]))\<lparr>onPayment := cb\<rparr>"


section \<open>Auxiliary facts\<close>

subsection \<open>Digit strings and \<open>BigInt\<close>\<close>


lemma ws_len_none:
  assumes "\<And>w. w \<in> set ws \<Longrightarrow> \<not> starts_with w s"
  shows "ws_len ws s = 0"
proof -
  have "List.find (\<lambda>w. starts_with w s) ws = None"
    using assms by (simp add: find_None_iff)
  then show ?thesis by (simp add: ws_len_def)
qed

lemma whitespace_not_digit:
  "list_all (\<lambda>w. w \<noteq> [] \<and> \<not> is_digit (hd w)) js_whitespace"
  "list_all (\<lambda>w. w \<noteq> [] \<and> \<not> is_digit (hd w)) (map rev js_whitespace)"
  by (simp_all add: js_whitespace_def is_digit_def)

lemma whitespace_first_not_digit:
  "w \<in> set js_whitespace \<Longrightarrow> \<exists>x xs. w = x # xs \<and> \<not> is_digit x"
  using whitespace_not_digit(1) unfolding list_all_iff by (cases w) auto

lemma whitespace_last_not_digit:
  assumes "w \<in> set (map rev js_whitespace)"
  shows "\<exists>x xs. w = x # xs \<and> \<not> is_digit x"
proof -
  have "\<forall>w\<in>set (map rev js_whitespace). w \<noteq> [] \<and> \<not> is_digit (hd w)"
    using whitespace_not_digit(2) by (simp only: list_all_iff)
  then have "w \<noteq> [] \<and> \<not> is_digit (hd w)" using assms by blast
  then show ?thesis by (cases w) simp_all
qed

lemma ws_len_digit [simp]:
  assumes "is_digit c"
  shows "ws_len js_whitespace (c # r) = 0" and "ws_len (map rev js_whitespace) (c # r) = 0"
proof -
  show "ws_len js_whitespace (c # r) = 0"
  proof (rule ws_len_none)
    fix w assume "w \<in> set js_whitespace"
    then obtain x xs where "w = x # xs" "\<not> is_digit x"
      using whitespace_first_not_digit by blast
    with assms show "\<not> starts_with w (c # r)" by auto
  qed
  show "ws_len (map rev js_whitespace) (c # r) = 0"
  proof (rule ws_len_none)
    fix w assume "w \<in> set (map rev js_whitespace)"
    then obtain x xs where "w = x # xs" "\<not> is_digit x"
      using whitespace_last_not_digit by blast
    with assms show "\<not> starts_with w (c # r)" by auto
  qed
qed

lemma strip_ws_none: "ws_len ws s = 0 \<Longrightarrow> strip_ws ws n s = s"
  by (cases n) simp_all

lemma trim_digits:
  assumes "s \<noteq> []" "list_all is_digit s"
  shows "trim s = s"
proof -
  obtain c r where s: "s = c # r" using assms(1) by (cases s) auto
  have c: "is_digit c" using assms(2) s by simp
  have 1: "trim_start s = s"
    unfolding trim_start_def s by (rule strip_ws_none) (simp add: c)
  obtain d q where rs: "rev s = d # q" using assms(1) by (cases "rev s") auto
  have "d \<in> set s" using rs by (metis list.set_intros(1) set_rev)
  then have d: "is_digit d" using assms(2) by (simp add: list_all_iff)
  have 2: "trim_end s = s"
    unfolding trim_end_def rs using strip_ws_none[of "map rev js_whitespace" "d # q" "length s"] d rs
    by (metis rev_rev_ident ws_len_digit(2))
  show ?thesis by (simp add: trim_def 1 2)
qed

lemma BigInt_digits:
  assumes "s \<noteq> []" "list_all is_digit s"
  shows "BigInt s = Some (digits_val 10 s)"
proof -
  obtain c r where s: "s = c # r" using assms(1) by (cases s) auto
  have c: "is_digit c" and r: "list_all is_digit r" using assms(2) s by simp_all
  have c1: "c \<noteq> CHR ''-''" "c \<noteq> CHR ''+''" using c by (auto simp: is_digit_def)
  have t: "trim (c # r) = c # r" using trim_digits[OF assms] s by simp
  have rd: "read_digits is_digit 10 (c # r) = Some (digits_val 10 (c # r))"
    using c r by (simp add: read_digits_def)
  show ?thesis
  proof (cases r)
    case Nil
    then show ?thesis using c1 rd t by (simp add: BigInt_def s)
  next
    case (Cons d r')
    then have "is_digit d" using r by simp
    then have "d \<noteq> CHR ''x''" "d \<noteq> CHR ''X''" "d \<noteq> CHR ''o''" "d \<noteq> CHR ''O''"
      "d \<noteq> CHR ''b''" "d \<noteq> CHR ''B''"
      by (auto simp: is_digit_def)
    then show ?thesis using c1 rd t Cons by (simp add: BigInt_def s)
  qed
qed

lemma isValidAmount_BigInt: "isValidAmount s \<Longrightarrow> BigInt s = Some (digits_val 10 s)"
  by (simp add: isValidAmount_def BigInt_digits)



subsection \<open>Route patterns\<close>

lemma first_match_find:
  "first_match p m ms =
     map_option matcher_config
       (List.find (\<lambda>mt. regex_test (pattern mt) p \<and> toUpperCase m \<in> set (matcher_methods mt)) ms)"
  by (induction ms) simp_all

lemma first_match_routes:
  "first_match p m
     (map (\<lambda>route. \<lparr>pattern = pathToRegex (path route),
                      matcher_methods = map toUpperCase (case methods route of None \<Rightarrow> dm | Some ms \<Rightarrow> ms),
                      matcher_config = route\<rparr>) rs) =
   List.find (\<lambda>route. regex_test (pathToRegex (path route)) p \<and>
       toUpperCase m \<in> set (map toUpperCase (case methods route of None \<Rightarrow> dm | Some ms \<Rightarrow> ms))) rs"
  by (induction rs) simp_all

lemma escape_no_star: "CHR ''*'' \<notin> set s \<Longrightarrow> replace_stars (escape_special s) = escape_special s"
  by (induction s) (auto simp: replace_stars_def escape_special_def is_regex_special_def)

lemma replace_params_id: "CHR '':'' \<notin> set s \<Longrightarrow> replace_params s = s"
  by (induction s) auto

lemma escape_no_colon: "CHR '':'' \<notin> set s \<Longrightarrow> CHR '':'' \<notin> set (escape_special s)"
  by (induction s) (auto simp: escape_special_def)

lemma literal_pattern:
  assumes "CHR ''*'' \<notin> set s" "CHR '':'' \<notin> set s"
  shows "pathToRegex s = escape_special s"
  using assms by (simp add: pathToRegex_def escape_no_star replace_params_id escape_no_colon)

lemma atoms_escape: "regex_atoms (escape_special s) = map Lit s"
proof (induction s)
  case Nil
  then show ?case by (simp add: escape_special_def)
next
  case (Cons c s)
  have e: "escape_special (c # s) = (if is_regex_special c then [CHR 0x5C, c] else [c]) @ escape_special s"
    by (simp add: escape_special_def)
  show ?case
  proof (cases "is_regex_special c")
    case True
    then show ?thesis using Cons by (simp add: e)
  next
    case False
    then have "c \<noteq> CHR 0x5C" "c \<noteq> CHR ''.''" "c \<noteq> CHR ''[''"
      by (auto simp: is_regex_special_def)
    then show ?thesis using Cons False by (simp add: e)
  qed
qed

lemma atoms_match_literal: "atoms_match (map Lit p) s \<longleftrightarrow> s = p"
proof (induction p arbitrary: s)
  case Nil
  then show ?case by simp
next
  case (Cons c p)
  then show ?case by (cases s) auto
qed

lemma exact_path_rule:
  assumes "CHR ''*'' \<notin> set pt" "CHR '':'' \<notin> set pt"
  shows "regex_test (pathToRegex pt) s \<longleftrightarrow> s = pt"
  by (simp add: regex_test_def literal_pattern[OF assms] atoms_escape atoms_match_literal)

lemma findMatchingRoute_rules:
  assumes "routes config = Some rs" and "rs \<noteq> []"
  shows "findMatchingRoute p m (createRouteMatchers config) config = List.find (\<lambda>r. rule_applies r p m) rs"
  using assms
  by (simp add: findMatchingRoute_def createRouteMatchers_def first_match_routes rule_applies_def)

subsection \<open>Base64\<close>

lemma unbase64_b64_char: "i < 64 \<Longrightarrow> unbase64 (b64_char i) = Some i"
  by (auto simp: unbase64_def b64_char_def less_eq_char_def)

lemma b64_char_not_pad: "i < 64 \<Longrightarrow> b64_char i \<noteq> CHR ''=''"
proof
  assume i: "i < 64" and "b64_char i = CHR ''=''"
  then have "unbase64 (CHR ''='') = Some i" using unbase64_b64_char by metis
  then show False by (simp add: unbase64_def)
qed

lemma sextets_b64 [simp]: "i < 64 \<Longrightarrow> sextets (b64_char i # r) = i # sextets r"
  by (simp add: unbase64_b64_char b64_char_not_pad)

lemma div_mult_add: "b < n \<Longrightarrow> (a * n + b) div n = (a::nat)"
  by simp

lemma mod_mult_add: "b < n \<Longrightarrow> (a * n + b) mod n = (b::nat)"
  by simp

lemma byte_split:
  fixes x y z :: nat
  assumes "x < 256" "y < 256" "z < 256"
  shows "x div 4 * 4 + (x mod 4 * 16 + y div 16) div 16 = x"
    and "(x mod 4 * 16 + y div 16) mod 16 * 16 + (y mod 16 * 4 + z div 64) div 4 = y"
    and "(y mod 16 * 4 + z div 64) mod 4 * 64 + z mod 64 = z"
    and "x div 4 < 64" "x mod 4 * 16 + y div 16 < 64" "y mod 16 * 4 + z div 64 < 64" "z mod 64 < 64"
proof -
  have y16: "y div 16 < 16" and z64: "z div 64 < 4" using assms by simp_all
  show "x div 4 * 4 + (x mod 4 * 16 + y div 16) div 16 = x"
    by (simp add: div_mult_add[OF y16])
  show "(x mod 4 * 16 + y div 16) mod 16 * 16 + (y mod 16 * 4 + z div 64) div 4 = y"
    by (simp add: mod_less[OF y16] div_mult_add[OF z64])
  show "(y mod 16 * 4 + z div 64) mod 4 * 64 + z mod 64 = z"
    by (simp add: mod_less[OF z64])
  show "x div 4 < 64" using assms by simp
  have "x mod 4 \<le> 3" by simp
  then have "x mod 4 * 16 \<le> 48" by simp
  then show "x mod 4 * 16 + y div 16 < 64" using y16 by simp
  have "y mod 16 \<le> 15" by simp
  then have "y mod 16 * 4 \<le> 60" by simp
  then show "y mod 16 * 4 + z div 64 < 64" using z64 by simp
  show "z mod 64 < 64" by simp
qed

lemma sextets_pad: "sextets (CHR ''='' # r) = []" and sextets_nil: "sextets [] = []"
  by simp_all

lemma base64_roundtrip: "base64_decode (base64_encode bs) = bs"
  unfolding base64_decode_def
proof (induction bs rule: base64_encode.induct)
  case 1
  then show ?case by simp
next
  case (2 a)
  have z: "(0::nat) < 256" by simp
  note B = byte_split[OF nat_of_char_less_256[of a] z z]
  have "x mod 4 * 16 < 64" for x :: nat
  proof -
    have "x mod 4 \<le> 3" by simp
    then show ?thesis by simp
  qed
  then show ?case
    using B by (simp add: Let_def sextets_b64 sextets_pad del: sextets.simps)
next
  case (3 a b)
  have z: "(0::nat) < 256" by simp
  note B = byte_split[OF nat_of_char_less_256[of a] nat_of_char_less_256[of b] z]
  show ?case
    using B by (simp add: Let_def sextets_b64 sextets_pad del: sextets.simps)
next
  case (4 a b c r)
  note B = byte_split[OF nat_of_char_less_256[of a] nat_of_char_less_256[of b] nat_of_char_less_256[of c]]
  show ?case
    using B 4 by (simp add: Let_def sextets_b64 del: sextets.simps)
qed

subsection \<open>JSON strings\<close>

lemma int_of_char: "(of_char c :: int) = int (of_char c)"
  by (simp add: of_nat_of_char)

lemma hex_digit_val: "d < 16 \<Longrightarrow> is_hex (hex_digit d) \<and> hex_val (hex_digit d) = int d"
  unfolding hex_digit_def is_hex_def is_digit_def hex_val_def less_eq_char_def int_of_char
  by (auto simp del: of_nat_of_char)

lemma is_hex_zero: "is_hex CHR ''0''" "hex_val CHR ''0'' = 0"
  by (simp_all add: is_hex_def is_digit_def hex_val_def)

lemma parse_chars_quote_char:
  "parse_chars (quote_char c @ r) = map_option (\<lambda>(s, t). (c # s, t)) (parse_chars r)"
proof -
  have lt: "(of_char c :: nat) < 32 \<Longrightarrow> of_char c div 16 < (16::nat) \<and> of_char c mod 16 < (16::nat)"
    by simp
  consider (esc) "c \<in> {CHR 0x22, CHR 0x5C, CHR 0x08, CHR 0x0C, CHR 0x0A, CHR 0x0D, CHR 0x09}"
    | (ctl) "c \<notin> {CHR 0x22, CHR 0x5C, CHR 0x08, CHR 0x0C, CHR 0x0A, CHR 0x0D, CHR 0x09}" "(of_char c :: nat) < 32"
    | (raw) "c \<notin> {CHR 0x22, CHR 0x5C, CHR 0x08, CHR 0x0C, CHR 0x0A, CHR 0x0D, CHR 0x09}" "\<not> (of_char c :: nat) < 32"
    by blast
  then show ?thesis
  proof cases
    case esc
    then show ?thesis by (auto simp: quote_char_def)
  next
    case ctl
    let ?h = "hex_digit (of_char c div 16)" and ?l = "hex_digit (of_char c mod 16)"
    have h: "is_hex ?h" "hex_val ?h = int (of_char c div 16)" "is_hex ?l" "hex_val ?l = int (of_char c mod 16)"
      using hex_digit_val lt[OF ctl(2)] by blast+
    have q: "quote_char c = [CHR 0x5C, CHR ''u'', CHR ''0'', CHR ''0'', ?h, ?l]"
      using ctl by (simp add: quote_char_def)
    have v: "digits_val 16 [CHR ''0'', CHR ''0'', ?h, ?l] = int (of_char c)"
    proof -
      have "int (of_char c div 16 * 16 + of_char c mod 16) = int (of_char c)"
        by (simp only: div_mult_mod_eq)
      then have "int (of_char c div 16) * 16 + int (of_char c mod 16) = int (of_char c)"
        by (simp only: of_nat_add of_nat_mult of_nat_numeral)
      then show ?thesis using h by (simp add: digits_val_def is_hex_zero)
    qed
    have u: "utf8_of_code_unit (of_char c) = [c]"
      using ctl(2) by (simp add: utf8_of_code_unit_def)
    show ?thesis
      using h by (simp add: q v u is_hex_zero)
  next
    case raw
    then show ?thesis by (simp add: quote_char_def)
  qed
qed

lemma parse_chars_quoted:
  "parse_chars (concat (map quote_char s) @ CHR 0x22 # r) = Some (s, r)"
  by (induction s) (simp_all add: parse_chars_quote_char del: parse_chars.simps, simp)

lemma quote_parse:
  "quote s @ r = CHR 0x22 # concat (map quote_char s) @ CHR 0x22 # r"
  by (simp add: quote_def)

subsection \<open>JSON values\<close>

lemma skip_ws_no: "\<not> is_json_ws c \<Longrightarrow> skip_ws (c # s) = c # s"
  by (simp add: skip_ws_def)

lemma parse_number_Nil: "parse_number [] = None"
  by (simp add: parse_number_def)

lemma parse_number_other:
  assumes "c \<noteq> CHR ''-''" "\<not> is_digit c"
  shows "parse_number (c # s) = None"
proof -
  have "c \<noteq> CHR ''0''" using assms(2) by (auto simp: is_digit_def)
  then show ?thesis using assms by (simp add: parse_number_def)
qed

lemma number_string_head:
  assumes "number_roundtrips x" "follows_value r"
  shows "\<exists>c s. number_to_string x @ r = c # s \<and> (c = CHR ''-'' \<or> is_digit c)"
proof -
  let ?s = "number_to_string x @ r"
  have p: "parse_number ?s = Some (x, r)" using assms by (simp add: number_roundtrips_def)
  show ?thesis
  proof (cases ?s)
    case Nil
    then show ?thesis using p parse_number_Nil by simp
  next
    case (Cons c s)
    then show ?thesis using p parse_number_other[of c s] by (cases "c = CHR ''-'' \<or> is_digit c") auto
  qed
qed

lemma digit_not_special:
  assumes "c = CHR ''-'' \<or> is_digit c"
  shows "\<not> is_json_ws c" "c \<noteq> CHR ''{''" "c \<noteq> CHR ''[''" "c \<noteq> CHR 0x22"
  using assms by (auto simp: is_json_ws_def is_digit_def)

lemma parse_value_number:
  assumes "number_roundtrips x" "follows_value r"
  shows "parse_value (Suc n) (number_to_string x @ r) = Some (JNum x, r)"
proof -
  obtain c s where cs: "number_to_string x @ r = c # s" and c: "c = CHR ''-'' \<or> is_digit c"
    using number_string_head[OF assms] by blast
  have "parse_number (number_to_string x @ r) = Some (x, r)"
    using assms unfolding number_roundtrips_def by blast
  then have p: "parse_number (c # s) = Some (x, r)" unfolding cs .
  show ?thesis
    unfolding cs using digit_not_special[OF c] c p by (simp add: skip_ws_no)
qed

lemma follows_value_simps [simp]:
  "follows_value []" "follows_value (CHR '','' # r)" "follows_value (CHR '']'' # r)"
  "follows_value (CHR ''}'' # r)"
  by (simp_all add: follows_value_def)

lemma parse_elems_join:
  assumes "\<And>x n r. x \<in> set xs \<Longrightarrow> follows_value r \<Longrightarrow> length (stringify x) \<le> n \<Longrightarrow>
             parse_value n (stringify x @ r) = Some (x, r)"
    and "xs \<noteq> []"
    and "length (join (map stringify xs)) < n"
  shows "parse_elems n (join (map stringify xs) @ CHR '']'' # r) = Some (xs, r)"
  using assms
proof (induction xs arbitrary: n)
  case Nil
  then show ?case by simp
next
  case (Cons x xs)
  obtain m where n: "n = Suc m" using Cons.prems(3) by (cases n) auto
  show ?case
  proof (cases xs)
    case Nil
    have "parse_value m (stringify x @ CHR '']'' # r) = Some (x, CHR '']'' # r)"
      using Cons.prems(1)[of x "CHR '']'' # r" m] Cons.prems(3) n Nil by simp
    then show ?thesis using Nil n by (simp add: skip_ws_no is_json_ws_def)
  next
    case (Cons y ys)
    let ?rest = "join (map stringify xs) @ CHR '']'' # r"
    have j: "join (map stringify (x # xs)) = stringify x @ CHR '','' # join (map stringify xs)"
      using Cons by simp
    have l: "length (stringify x) \<le> m" "length (join (map stringify xs)) < m"
      using Cons.prems(3) n unfolding j by simp_all
    have 1: "parse_value m (stringify x @ CHR '','' # ?rest) = Some (x, CHR '','' # ?rest)"
      using Cons.prems(1)[of x "CHR '','' # ?rest" m] l by simp
    have 2: "parse_elems m ?rest = Some (xs, r)"
      using Cons.IH[of m] Cons.prems(1) l Cons by simp
    show ?thesis
      unfolding j n using 1 2 by (simp add: skip_ws_no is_json_ws_def)
  qed
qed

lemma parse_members_join:
  assumes "\<And>k v n r. (k, v) \<in> set kvs \<Longrightarrow> follows_value r \<Longrightarrow> length (stringify v) \<le> n \<Longrightarrow>
             parse_value n (stringify v @ r) = Some (v, r)"
    and "kvs \<noteq> []"
    and "length (join (map (\<lambda>kv. quote (fst kv) @ CHR '':'' # snd kv) (map (map_prod id stringify) kvs))) < n"
  shows "parse_members n
           (join (map (\<lambda>kv. quote (fst kv) @ CHR '':'' # snd kv) (map (map_prod id stringify) kvs)) @ CHR ''}'' # r)
         = Some (kvs, r)"
  using assms
proof (induction kvs arbitrary: n)
  case Nil
  then show ?case by simp
next
  case (Cons kv kvs)
  note IH = Cons.IH and prems = Cons.prems
  obtain k v where kv: "kv = (k, v)" by (cases kv)
  obtain m where n: "n = Suc m" using Cons.prems(3) by (cases n) auto
  let ?f = "\<lambda>kv. quote (fst kv) @ CHR '':'' # snd kv"
  let ?g = "map_prod id stringify"
  have q: "\<And>t. quote k @ t = CHR 0x22 # concat (map quote_char k) @ CHR 0x22 # t"
    by (simp add: quote_def)
  show ?case
  proof (cases kvs)
    case Nil
    have l: "length (stringify v) \<le> m"
      using prems(3) n Nil kv by simp
    have 1: "parse_value m (stringify v @ CHR ''}'' # r) = Some (v, CHR ''}'' # r)"
      using prems(1)[of k v "CHR ''}'' # r" m] l kv by simp
    show ?thesis
      using Nil n kv 1 by (simp add: q parse_chars_quoted skip_ws_no is_json_ws_def del: parse_chars.simps)
  next
    case (Cons y ys)
    let ?rest = "join (map ?f (map ?g kvs)) @ CHR ''}'' # r"
    have j: "join (map ?f (map ?g (kv # kvs))) = quote k @ CHR '':'' # stringify v @ CHR '','' # join (map ?f (map ?g kvs))"
      using Cons kv by simp
    have l: "length (stringify v) \<le> m" "length (join (map ?f (map ?g kvs))) < m"
      using prems(3) n unfolding j by simp_all
    have 1: "parse_value m (stringify v @ CHR '','' # ?rest) = Some (v, CHR '','' # ?rest)"
      using prems(1)[of k v "CHR '','' # ?rest" m] l kv by simp
    have 2: "parse_members m ?rest = Some (kvs, r)"
    proof (rule IH)
      fix k v n r assume "(k, v) \<in> set kvs" "follows_value r" "length (stringify v) \<le> n"
      then show "parse_value n (stringify v @ r) = Some (v, r)"
        using prems(1)[of k v r n] by simp
    next
      show "kvs \<noteq> []" using Cons by simp
      show "length (join (map ?f (map ?g kvs))) < m" by (rule l(2))
    qed
    show ?thesis
      unfolding j n using 1 2 kv
      by (simp add: q parse_chars_quoted skip_ws_no is_json_ws_def del: parse_chars.simps)
  qed
qed

lemma stringify_head:
  assumes "printable j"
  shows "\<exists>c t. stringify j = c # t \<and> c \<noteq> CHR '']'' \<and> \<not> is_json_ws c"
proof (cases j)
  case (JNum x)
  then have "number_roundtrips x" using assms by simp
  from number_string_head[OF this, of "[]"] obtain c s
    where "number_to_string x = c # s" "c = CHR ''-'' \<or> is_digit c" by auto
  moreover have "c \<noteq> CHR '']''" using calculation(2) by (auto simp: is_digit_def)
  moreover obtain a where "x = Finite a" using \<open>number_roundtrips x\<close> by (auto simp: number_roundtrips_def)
  ultimately show ?thesis using JNum digit_not_special(1)[of c] by simp
qed (auto simp: is_json_ws_def quote_def)

lemma join_head:
  assumes "xs \<noteq> []" "hd xs = c # t"
  shows "\<exists>t'. join xs = c # t'"
proof (cases xs)
  case Nil
  then show ?thesis using assms by simp
next
  case (Cons y ys)
  then show ?thesis using assms by (cases ys) auto
qed

lemma parse_stringify:
  "printable j \<Longrightarrow> follows_value r \<Longrightarrow> length (stringify j) \<le> n \<Longrightarrow>
     parse_value n (stringify j @ r) = Some (j, r)"
proof (induction j arbitrary: n r)
  case JNull
  then obtain m where "n = Suc m" by (cases n) auto
  then show ?case by (simp add: skip_ws_no is_json_ws_def is_digit_def)
next
  case (JBool b)
  then obtain m where "n = Suc m" by (cases n; cases b) auto
  then show ?case by (cases b) (simp_all add: skip_ws_no is_json_ws_def is_digit_def)
next
  case (JNum x)
  obtain c t where "stringify (JNum x) = c # t" using stringify_head[OF JNum.prems(1)] by blast
  then obtain m where n: "n = Suc m" using JNum.prems(3) by (cases n) auto
  from JNum obtain a where a: "x = Finite a" by (auto simp: number_roundtrips_def)
  show ?case
    using parse_value_number[of x r m] JNum.prems unfolding n by (simp add: a)
next
  case (JStr s)
  then obtain m where "n = Suc m" by (cases n) (auto simp: quote_def)
  then show ?case
    by (simp add: quote_def parse_chars_quoted skip_ws_no is_json_ws_def del: parse_chars.simps)
next
  case (JArr xs)
  then obtain m where n: "n = Suc m" by (cases n) auto
  show ?case
  proof (cases xs)
    case Nil
    then show ?thesis unfolding n by (simp add: skip_ws_no is_json_ws_def)
  next
    case (Cons y ys)
    have e: "parse_elems m (join (map stringify xs) @ CHR '']'' # r) = Some (xs, r)"
    proof (rule parse_elems_join)
      fix x n r assume "x \<in> set xs" "follows_value r" "length (stringify x) \<le> n"
      then show "parse_value n (stringify x @ r) = Some (x, r)"
        using JArr.IH[of x r n] JArr.prems(1) by (simp add: list_all_iff)
    next
      show "xs \<noteq> []" using Cons by simp
      show "length (join (map stringify xs)) < m" using JArr.prems(3) n by simp
    qed
    have "printable y" using JArr.prems(1) Cons by simp
    then obtain c t where "stringify y = c # t" "c \<noteq> CHR '']''" "\<not> is_json_ws c"
      using stringify_head by blast
    then obtain t' where h: "join (map stringify xs) = c # t'" "c \<noteq> CHR '']''" "\<not> is_json_ws c"
      using join_head[of "map stringify xs" c t] Cons by auto
    show ?thesis
      unfolding n using e h by (simp add: skip_ws_no is_json_ws_def)
  qed
next
  case (JObj kvs)
  then obtain m where n: "n = Suc m" by (cases n) auto
  let ?f = "\<lambda>kv. quote (fst kv) @ CHR '':'' # snd kv"
  let ?g = "map_prod id stringify"
  show ?case
  proof (cases kvs)
    case Nil
    then show ?thesis unfolding n by (simp add: skip_ws_no is_json_ws_def)
  next
    case (Cons y ys)
    have e: "parse_members m (join (map ?f (map ?g kvs)) @ CHR ''}'' # r) = Some (kvs, r)"
    proof (rule parse_members_join)
      fix k v n r assume "(k, v) \<in> set kvs" "follows_value r" "length (stringify v) \<le> n"
      then show "parse_value n (stringify v @ r) = Some (v, r)"
        using JObj.IH[of "(k, v)" v r n] JObj.prems(1) by (auto simp: list_all_iff)
    next
      show "kvs \<noteq> []" using Cons by simp
      show "length (join (map ?f (map ?g kvs))) < m" using JObj.prems(3) n by simp
    qed
    have "hd (map ?f (map ?g kvs)) = CHR 0x22 # concat (map quote_char (fst y)) @ CHR 0x22 # CHR '':'' # stringify (snd y)"
      using Cons by (simp add: quote_def)
    then obtain t' where h: "join (map ?f (map ?g kvs)) = CHR 0x22 # t'"
      using join_head[of "map ?f (map ?g kvs)" "CHR 0x22"] Cons by auto
    show ?thesis
      unfolding n using e h by (simp add: skip_ws_no is_json_ws_def)
  qed
qed

lemma JSON_parse_stringify: "printable j \<Longrightarrow> JSON_parse (stringify j) = Some j"
  using parse_stringify[of j "[]" "Suc (length (stringify j))"]
  by (simp add: JSON_parse_def skip_ws_def)

subsection \<open>Rounding to a double\<close>

lemma pow2_powi: "pow2 e = 2 powi e"
  by (simp add: pow2_def power_int_def inverse_eq_divide power_one_over)

lemma pow10_powi: "pow10 e = 10 powi e"
  by (simp add: pow10_def power_int_def inverse_eq_divide power_one_over)

lemma pow2_pos [simp]: "0 < pow2 e"
  by (simp add: pow2_powi)

lemma pow10_pos [simp]: "0 < pow10 e"
  by (simp add: pow10_powi)

lemma pow2_add: "pow2 (a + b) = pow2 a * pow2 b"
  by (simp add: pow2_powi power_int_add)

lemma pow10_add: "pow10 (a + b) = pow10 a * pow10 b"
  by (simp add: pow10_powi power_int_add)

lemma pow2_less_iff [simp]: "pow2 a < pow2 b \<longleftrightarrow> a < b"
proof
  assume "a < b"
  then show "pow2 a < pow2 b" unfolding pow2_powi by (intro power_int_strict_increasing) simp_all
next
  assume l: "pow2 a < pow2 b"
  show "a < b"
  proof (rule ccontr)
    assume "\<not> a < b"
    then have "b \<le> a" by simp
    then have "pow2 b \<le> pow2 a" unfolding pow2_powi by (intro power_int_increasing) simp_all
    then show False using l by simp
  qed
qed

lemma pow2_le_iff [simp]: "pow2 a \<le> pow2 b \<longleftrightarrow> a \<le> b"
  by (metis linorder_not_less pow2_less_iff)

lemma pow2_nat: "pow2 (int n) = 2 ^ n"
  by (simp add: pow2_powi)

lemma binexp_bounds:
  assumes "0 < r"
  shows "pow2 (binexp r) \<le> r" and "r < pow2 (binexp r + 1)"
proof -
  obtain p q where pq: "quotient_of r = (p, q)" by (cases "quotient_of r")
  have q: "0 < q" using pq by (rule quotient_of_denom_pos)
  have r: "r = of_int p / of_int q" using pq by (rule quotient_of_div)
  have p: "0 < p" using assms q unfolding r by (simp add: zero_less_divide_iff)
  let ?d = "bitlen p - bitlen q"
  have bp: "1 \<le> bitlen p" "1 \<le> bitlen q"
    using p q bitlen_eq_zero_iff[of p] bitlen_eq_zero_iff[of q] bitlen_nonneg[of p] bitlen_nonneg[of q]
    by linarith+
  have P: "pow2 (bitlen p - 1) \<le> of_int p" "of_int p < pow2 (bitlen p)"
  proof -
    have "2 ^ nat (bitlen p - 1) \<le> p" "p < 2 ^ nat (bitlen p)" using bitlen_bounds[OF p] by auto
    then have "(of_int (2 ^ nat (bitlen p - 1)) :: rat) \<le> of_int p" "(of_int p :: rat) < of_int (2 ^ nat (bitlen p))"
      by (simp_all only: of_int_le_iff of_int_less_iff)
    then show "pow2 (bitlen p - 1) \<le> of_int p" "of_int p < pow2 (bitlen p)"
      using bp by (simp_all add: pow2_def)
  qed
  have Q: "pow2 (bitlen q - 1) \<le> of_int q" "of_int q < pow2 (bitlen q)"
  proof -
    have "2 ^ nat (bitlen q - 1) \<le> q" "q < 2 ^ nat (bitlen q)" using bitlen_bounds[OF q] by auto
    then have "(of_int (2 ^ nat (bitlen q - 1)) :: rat) \<le> of_int q" "(of_int q :: rat) < of_int (2 ^ nat (bitlen q))"
      by (simp_all only: of_int_le_iff of_int_less_iff)
    then show "pow2 (bitlen q - 1) \<le> of_int q" "of_int q < pow2 (bitlen q)"
      using bp by (simp_all add: pow2_def)
  qed
  have qpos: "(0::rat) < of_int q" using q by simp
  have up: "r < pow2 (?d + 1)"
  proof -
    have "of_int p < pow2 (bitlen p)" by (rule P)
    also have "\<dots> = pow2 (?d + 1) * pow2 (bitlen q - 1)"
      by (simp add: pow2_add[symmetric])
    also have "\<dots> \<le> pow2 (?d + 1) * of_int q"
      using Q(1) by (simp add: mult_left_mono less_imp_le)
    finally show ?thesis unfolding r using qpos by (simp add: pos_divide_less_eq)
  qed
  have lo: "pow2 (?d - 1) < r"
  proof -
    have "pow2 (?d - 1) * of_int q < pow2 (?d - 1) * pow2 (bitlen q)"
      using Q(2) by (simp add: mult_strict_left_mono)
    also have "\<dots> = pow2 (bitlen p - 1)" by (simp add: pow2_add[symmetric])
    also have "\<dots> \<le> of_int p" by (rule P)
    finally show ?thesis unfolding r using qpos by (simp add: pos_less_divide_eq)
  qed
  have b: "binexp r = (if pow2 ?d \<le> r then ?d else ?d - 1)"
    by (simp add: binexp_def pq Let_def)
  show "pow2 (binexp r) \<le> r" using lo unfolding b by (auto simp: less_imp_le)
  show "r < pow2 (binexp r + 1)" using up unfolding b by (auto simp: not_le)
qed

lemma binexp_unique:
  assumes "pow2 e \<le> r" "r < pow2 (e + 1)"
  shows "binexp r = e"
proof -
  have r: "0 < r" using assms(1) pow2_pos[of e] by linarith
  have "pow2 (binexp r) < pow2 (e + 1)" using binexp_bounds(1)[OF r] assms(2) by linarith
  moreover have "pow2 e < pow2 (binexp r + 1)" using binexp_bounds(2)[OF r] assms(1) by linarith
  ultimately show ?thesis by simp
qed


lemma round_half_even_int [simp]: "round_half_even (of_int k) = k"
  by (simp add: round_half_even_def)

lemma pow2_nonzero [simp]: "pow2 e \<noteq> 0"
  using pow2_pos[of e] by linarith

lemma pow10_nonzero [simp]: "pow10 e \<noteq> 0"
  using pow10_pos[of e] by linarith


lemma round_double_int:
  assumes "0 < M" "M < 2 ^ 53"
  shows "round_double (of_int M) = Finite (of_int M)"
proof -
  let ?r = "of_int M :: rat"
  have r: "0 < ?r" using assms by simp
  let ?e = "binexp ?r"
  have b: "pow2 ?e \<le> ?r" "?r < pow2 (?e + 1)" using binexp_bounds[OF r] by auto
  have "(1::rat) \<le> ?r" using assms by simp
  then have "pow2 0 < pow2 (?e + 1)" using b(2) by (simp add: pow2_def)
  then have e1: "0 \<le> ?e" by simp
  have "?r < 2 ^ 53" using assms(2) by (metis of_int_less_iff of_int_numeral of_int_power)
  then have "pow2 ?e < pow2 53" using b(1) by (simp add: pow2_def)
  then have e2: "?e \<le> 52" by simp
  let ?q = "pow2 (?e - 52)"
  have q: "?q = 1 / 2 ^ nat (52 - ?e)"
    using e2 by (auto simp: pow2_def)
  have "?r / ?q = of_int (M * 2 ^ nat (52 - ?e))" by (simp add: q)
  then have m: "round_half_even (?r / ?q) = M * 2 ^ nat (52 - ?e)"
    by (simp only: round_half_even_int)
  have v: "of_int (M * 2 ^ nat (52 - ?e)) * ?q = ?r" by (simp add: q)
  show ?thesis
    using r e1 e2 unfolding round_double_def Let_def
    by (simp add: max_def m v del: of_int_mult of_int_power)
qed

subsection \<open>Decimal digits\<close>

lemma digit_char_props:
  assumes "0 \<le> d" "d < 10"
  shows "is_digit (digit_char d)" "hex_val (digit_char d) = d" "digit_char d = CHR ''0'' \<longleftrightarrow> d = 0"
proof -
  obtain k where k: "d = int k" "k < 10" using assms by (metis nat_less_iff zero_le_imp_eq_int numeral_eq_Suc of_nat_numeral nat_int less_imp_of_nat_less of_nat_less_iff)
  have c: "digit_char d = char_of (48 + k)"
    unfolding digit_char_def k by (metis char_of_nat of_nat_add of_nat_numeral)
  have o: "(of_char (char_of (48 + k)) :: nat) = 48 + k" using k(2) by simp
  show "is_digit (digit_char d)" using k(2) unfolding c is_digit_def less_eq_char_def o by simp
  then show "hex_val (digit_char d) = d"
    unfolding hex_val_def c int_of_char o using k by simp
  show "digit_char d = CHR ''0'' \<longleftrightarrow> d = 0"
  proof -
    have "char_of (48 + k) = CHR ''0'' \<longleftrightarrow> (of_char (char_of (48 + k)) :: nat) = of_char (CHR ''0'')"
      by (simp only: of_char_eq_iff)
    then show ?thesis unfolding c o using k by simp
  qed
qed

lemma digits_val_snoc: "digits_val b (ds @ [c]) = digits_val b ds * b + hex_val c"
  by (simp add: digits_val_def)

lemma show_nat_digits: "0 \<le> n \<Longrightarrow> show_nat n \<noteq> [] \<and> list_all is_digit (show_nat n)"
proof (induction n rule: show_nat.induct)
  case (1 n)
  show ?case
  proof (cases "n < 10")
    case True
    then show ?thesis using 1(2) digit_char_props(1)[of n] by (simp add: show_nat.simps[of n])
  next
    case False
    then have "0 \<le> n div 10" "0 \<le> n mod 10" "n mod 10 < 10" by simp_all
    then show ?thesis
      using 1(1)[OF False] False digit_char_props(1)[of "n mod 10"] by (simp add: show_nat.simps[of n])
  qed
qed

lemma digits_val_show_nat: "0 \<le> n \<Longrightarrow> digits_val 10 (show_nat n) = n"
proof (induction n rule: show_nat.induct)
  case (1 n)
  show ?case
  proof (cases "n < 10")
    case True
    then show ?thesis using 1(2) digit_char_props(2)[of n]
      by (simp add: show_nat.simps[of n] digits_val_def)
  next
    case False
    then have m: "0 \<le> n div 10" "0 \<le> n mod 10" "n mod 10 < 10" by simp_all
    show ?thesis
      using 1(1)[OF False m(1)] False digit_char_props(2)[OF m(2,3)]
      by (simp add: show_nat.simps[of n] digits_val_snoc)
  qed
qed

lemma show_nat_hd: "0 < n \<Longrightarrow> hd (show_nat n) \<noteq> CHR ''0''"
proof (induction n rule: show_nat.induct)
  case (1 n)
  show ?case
  proof (cases "n < 10")
    case True
    then show ?thesis using 1(2) digit_char_props(3)[of n] by (simp add: show_nat.simps[of n])
  next
    case False
    then have m: "0 < n div 10" by simp
    have "show_nat (n div 10) \<noteq> []" using show_nat_digits[of "n div 10"] m by simp
    then show ?thesis
      using 1(1)[OF False m] False by (simp add: show_nat.simps[of n])
  qed
qed

lemma show_nat_length:
  "0 < n \<Longrightarrow> 10 ^ (length (show_nat n) - 1) \<le> n \<and> n < 10 ^ length (show_nat n)"
proof (induction n rule: show_nat.induct)
  case (1 n)
  show ?case
  proof (cases "n < 10")
    case True
    then show ?thesis using 1(2) by (simp add: show_nat.simps[of n])
  next
    case False
    then have m: "0 < n div 10" by simp
    let ?l = "length (show_nat (n div 10))"
    have l: "0 < ?l" using show_nat_digits[of "n div 10"] m by simp
    have ih: "10 ^ (?l - 1) \<le> n div 10" "n div 10 < 10 ^ ?l" using 1(1)[OF False m] by auto
    have len: "length (show_nat n) = Suc ?l" using False by (simp add: show_nat.simps[of n])
    have "10 ^ (?l - 1) * 10 \<le> n" using ih(1) by linarith
    moreover have "(10::int) ^ (?l - 1) * 10 = 10 ^ ?l" using l by (cases ?l) simp_all
    moreover have "n < 10 ^ ?l * 10" using ih(2) by linarith
    ultimately show ?thesis unfolding len by simp
  qed
qed

lemma show_nat_times_ten:
  assumes "0 < s"
  shows "show_nat (s * 10 ^ j) = show_nat s @ replicate j CHR ''0''"
proof (induction j)
  case 0
  then show ?case by simp
next
  case (Suc j)
  let ?n = "s * 10 ^ Suc j"
  have "1 \<le> s * 10 ^ j" using assms by (simp add: less_1_mult one_le_power mult_pos_pos int_one_le_iff_zero_less)
  then have n: "\<not> ?n < 10" by simp
  have d: "?n div 10 = s * 10 ^ j" "?n mod 10 = 0" by simp_all
  have z: "digit_char 0 = CHR ''0''" using digit_char_props(3)[of 0] by simp
  show ?case
    using n by (simp add: show_nat.simps[of ?n] d Suc z replicate_append_same del: power_Suc)
qed

subsection \<open>The decimal form of an integer\<close>

lemma pow10_nat: "pow10 (int n) = 10 ^ n"
  by (simp add: pow10_def)

lemma round_double_int_neq:
  assumes "0 < M" "M < 2 ^ 53" "M \<noteq> N"
  shows "round_double (of_int M) \<noteq> Finite (of_int N)"
  using round_double_int[OF assms(1,2)] assms(3) by simp

lemma shortest_digits_int:
  assumes N: "0 < N" "N < 2 ^ 52"
    and d: "10 ^ (d - 1) \<le> N" "N < 10 ^ d"
    and k: "1 \<le> k" "k \<le> d" "d < k + fuel"
  shows "\<exists>j. shortest_digits fuel k (of_int N) (int d) = (N div 10 ^ j, int d) \<and> j \<le> d - k \<and> 10 ^ j dvd N"
  using k
proof (induction fuel arbitrary: k)
  case 0
  then show ?case by simp
next
  case (Suc fuel)
  have p52: "(2::int) ^ 53 = 2 * 2 ^ 52" by simp
  have N52: "0 < (2::int) ^ 52" by simp
  let ?t = "d - k"
  have t: "int d - int k = int ?t" using Suc.prems by simp
  let ?T = "(10::int) ^ ?t"
  have Tpos: "0 < ?T" by simp
  have TN: "?T \<le> N"
  proof -
    have "?T \<le> 10 ^ (d - 1)" using Suc.prems by (intro power_increasing) simp_all
    then show ?thesis using d(1) by linarith
  qed
  let ?lo = "N div ?T"
  have q: "of_int N / pow10 (int ?t) = (of_int N :: rat) / of_int ?T" by (simp add: pow10_nat)
  have lo: "\<lfloor>of_int N / pow10 (int ?t)\<rfloor> = ?lo"
    unfolding q by (simp only: floor_divide_of_int_eq)
  have lo1: "1 \<le> ?lo" using TN Tpos by (simp add: pos_imp_zdiv_pos_iff int_one_le_iff_zero_less)
  let ?M1 = "?lo * ?T"
  have M1: "0 < ?M1" "?M1 \<le> N" "N < ?M1 + ?T"
  proof -
    show "0 < ?M1" using lo1 Tpos by (simp add: mult_pos_pos)
    have e: "N = ?M1 + N mod ?T" by (rule div_mult_mod_eq[symmetric])
    have "0 \<le> N mod ?T" "N mod ?T < ?T" using Tpos by simp_all
    then show "?M1 \<le> N" "N < ?M1 + ?T" using e by linarith+
  qed
  have v1: "(of_int ?lo :: rat) * pow10 (int ?t) = of_int ?M1" by (simp add: pow10_nat)
  have v2: "(of_int (?lo + 1) :: rat) * pow10 (int ?t) = of_int (?M1 + ?T)"
    by (simp add: pow10_nat algebra_simps)
  have ok1: "round_double (of_int ?M1) = Finite (of_int N) \<longleftrightarrow> ?M1 = N"
  proof -
    have "?M1 < 2 ^ 53" using M1(2) N(2) N52 unfolding p52 by linarith
    then have "round_double (of_int ?M1) = Finite (of_int ?M1)" using M1(1) by (rule round_double_int[rotated])
    then show ?thesis by (simp only: number.inject of_int_eq_iff)
  qed
  have ok2: "round_double (of_int (?M1 + ?T)) \<noteq> Finite (of_int N)"
  proof (rule round_double_int_neq)
    show "0 < ?M1 + ?T" using M1(1) Tpos by linarith
    have "?M1 + ?T \<le> N + N" using M1(2) TN by linarith
    then show "?M1 + ?T < 2 ^ 53" using N(2) unfolding p52 by linarith
    show "?M1 + ?T \<noteq> N" using M1(3) by linarith
  qed
  have dv: "?M1 = N \<longleftrightarrow> ?T dvd N"
    by (metis dvd_div_mult_self dvd_triv_right)
  have step: "shortest_digits (Suc fuel) k (of_int N) (int d) =
      (if ?T dvd N then (?lo, int d) else shortest_digits fuel (k + 1) (of_int N) (int d))"
    using ok2 by (simp add: Let_def t lo v1 v2 ok1 dv del: of_int_mult of_int_add of_int_power)
  show ?case
  proof (cases "?T dvd N")
    case True
    then show ?thesis using step by auto
  next
    case False
    have "k \<noteq> d" using False by auto
    then have k': "1 \<le> k + 1" "k + 1 \<le> d" "d < k + 1 + fuel" using Suc.prems by simp_all
    obtain j where "shortest_digits fuel (k + 1) (of_int N) (int d) = (N div 10 ^ j, int d)"
      "j \<le> d - (k + 1)" "10 ^ j dvd N"
      using Suc.IH[OF k'] by blast
    then show ?thesis using step False by (intro exI[of _ j]) simp
  qed
qed

lemma number_to_string_int:
  assumes "0 < N" "N < 2 ^ 52"
  shows "number_to_string (Finite (of_int N)) = show_nat N"
proof -
  let ?d = "length (show_nat N)"
  have d: "10 ^ (?d - 1) \<le> N" "N < 10 ^ ?d" using show_nat_length[OF assms(1)] by auto
  have d1: "1 \<le> ?d" using show_nat_digits[of N] assms(1) by (cases "show_nat N") simp_all
  have "(10::int) ^ (?d - 1) < 10 ^ 16"
  proof -
    have "(2::int) ^ 52 < 10 ^ 16" by simp
    then show ?thesis using d(1) assms(2) by linarith
  qed
  then have "?d - 1 < 16" by (simp only: power_strict_increasing_iff[of "10::int"] one_less_numeral_iff semiring_norm)
  then have d16: "?d \<le> 16" by simp
  have de: "decimal_exponent (of_int N) = int ?d"
    using assms(1) by (simp add: decimal_exponent_def)
  obtain j where j: "shortest_digits 768 1 (of_int N) (int ?d) = (N div 10 ^ j, int ?d)"
    "j \<le> ?d - 1" "10 ^ j dvd N"
    using shortest_digits_int[OF assms d, of 1 768] d1 d16 by auto
  let ?s = "N div 10 ^ j"
  have N: "N = ?s * 10 ^ j" using j(3) by simp
  have s: "0 < ?s"
  proof (rule ccontr)
    assume "\<not> 0 < ?s"
    then have "?s \<le> 0" by simp
    then have "?s * 10 ^ j \<le> 0" by (simp add: mult_le_0_iff)
    then show False using N assms(1) by linarith
  qed
  have sn: "show_nat N = show_nat ?s @ replicate j CHR ''0''"
    using show_nat_times_ten[OF s, of j] N by simp
  then have len: "?d = length (show_nat ?s) + j" by (metis length_append length_replicate)
  have f: "format_digits (show_nat ?s) (int ?d) = show_nat ?s @ replicate j CHR ''0''"
    using len d16 by (simp add: format_digits_def Let_def)
  have n0: "(of_int N :: rat) \<noteq> 0" "\<not> (of_int N :: rat) < 0" using assms(1) by simp_all
  have "show_positive (of_int N) = show_nat ?s @ replicate j CHR ''0''"
    unfolding show_positive_def de j(1) by (simp only: prod.case Let_def f)
  then have "show_positive (of_int N) = show_nat N" using sn by simp
  then show ?thesis
    using n0 by (simp add: number_to_string_def)
qed

subsection \<open>Integers in JSON text\<close>

lemma follows_value_cases:
  assumes "follows_value r"
  shows "r = [] \<or> (\<exists>c t. r = c # t \<and> \<not> is_digit c \<and> c \<noteq> CHR ''.'' \<and> c \<noteq> CHR ''e'' \<and> c \<noteq> CHR ''E'')"
  using assms by (cases r) (auto simp: follows_value_def is_digit_def)

lemma parse_number_digits:
  assumes ds: "ds \<noteq> []" "list_all is_digit ds" "hd ds \<noteq> CHR ''0'' \<or> ds = ''0''"
    and r: "follows_value r"
  shows "parse_number (ds @ r) = Some (round_double (of_int (digits_val 10 ds)), r)"
proof -
  obtain c cs where dc: "ds = c # cs" using ds(1) by (cases ds) auto
  have cd: "is_digit c" using ds(2) dc by simp
  then have cm: "c \<noteq> CHR ''-''" by (auto simp: is_digit_def)
  have tw: "takeWhile is_digit (ds @ r) = ds"
    using follows_value_cases[OF r] ds(2) by (auto simp: takeWhile_append2 list_all_iff)
  have ip: "(if ds @ r \<noteq> [] \<and> hd (ds @ r) = CHR ''0'' then ''0'' else takeWhile is_digit (ds @ r)) = ds"
    using ds(3) tw dc by auto
  have dr: "drop (length ds) (ds @ r) = r" by simp
  have fp: "(case r of c # d # r' \<Rightarrow> if c = CHR ''.'' \<and> is_digit d then takeWhile is_digit (d # r') else []
                | _ \<Rightarrow> []) = []"
    using follows_value_cases[OF r] by (auto split: list.splits)
  have he: "(case r of c # d # r' \<Rightarrow>
                    (c = CHR ''e'' \<or> c = CHR ''E'') \<and>
                    (is_digit d \<or> ((d = CHR ''+'' \<or> d = CHR ''-'') \<and> r' \<noteq> [] \<and> is_digit (hd r')))
                | _ \<Rightarrow> False) = False"
    using follows_value_cases[OF r] by (auto split: list.splits)
  have neg: "(ds @ r \<noteq> [] \<and> hd (ds @ r) = CHR ''-'') = False" using dc cm by simp
  show ?thesis
    unfolding parse_number_def Let_def
    apply (simp only: neg if_False)
    apply (simp only: ip dr)
    apply (simp only: fp he if_True if_False refl)
    apply (simp add: ds(1) pow10_def)
    done
qed

lemma number_roundtrips_int:
  assumes "0 \<le> N" "N < 2 ^ 52"
  shows "number_roundtrips (Finite (of_int N))"
proof (cases "N = 0")
  case True
  have "parse_number (''0'' @ r) = Some (Finite 0, r)" if "follows_value r" for r
    using parse_number_digits[of "''0''" r] that
    by (simp add: is_digit_def digits_val_def hex_val_def round_double_def)
  then show ?thesis using True by (simp add: number_roundtrips_def number_to_string_def)
next
  case False
  then have N: "0 < N" using assms by simp
  have s: "number_to_string (Finite (of_int N)) = show_nat N"
    using number_to_string_int[OF N assms(2)] .
  have p53: "N < 2 ^ 53" using assms(2) by simp
  have "parse_number (show_nat N @ r) = Some (Finite (of_int N), r)" if "follows_value r" for r
    using parse_number_digits[of "show_nat N" r] that show_nat_digits[of N] show_nat_hd[OF N]
      digits_val_show_nat[of N] N round_double_int[OF N p53] by simp
  then show ?thesis unfolding number_roundtrips_def s by blast
qed

lemma number_roundtrips_numeral:
  "number_roundtrips (Finite 1704067200)" "number_roundtrips (Finite 1704067500)"
  using number_roundtrips_int[of 1704067200] number_roundtrips_int[of 1704067500] by simp_all

subsection \<open>Records and their JSON values\<close>

lemma payload_of_json_of_payload: "payload_of_json (json_of_payload p) = p"
  by (simp add: payload_of_json_def json_of_payload_def json_of_authorization_def
      authorization_of_json_def str_prop_def num_prop_def obj_prop_def)

lemma printable_payload:
  assumes "number_roundtrips (validAfter (authorization (payload p)))"
    and "number_roundtrips (validBefore (authorization (payload p)))"
  shows "printable (json_of_payload p)"
  using assms by (simp add: json_of_payload_def json_of_authorization_def)

lemma decode_encode_payload:
  assumes "validatePaymentPayload (json_of_payload p) = None"
    and "number_roundtrips (validAfter (authorization (payload p)))"
    and "number_roundtrips (validBefore (authorization (payload p)))"
  shows "decodePaymentPayload (encodePaymentPayload p) = Inr (json_of_payload p)"
  using assms(1) JSON_parse_stringify[OF printable_payload[OF assms(2,3)]]
  by (simp add: decodePaymentPayload_def encodePaymentPayload_def base64_roundtrip)

lemma usdToBaseUnits_cent: "usdToBaseUnits ''0.01'' = Inr ''10000''"
  by code_simp

subsection \<open>The handler on a request that carries a payment\<close>

lemma handler_rejected:
  assumes "findMatchingRoute (req_path req) (req_method req) (routeMatchers gate) config = Some rc"
    and "payment_header req = Some h" and "h \<noteq> []"
    and "decodePaymentPayload h = Inr parsed"
    and "usdToBaseUnits (price rc) = Inr amt"
    and "validatePaymentAgainstRequirements (payload_of_json parsed)
           (verification_requirements config gate req amt) (unix_seconds (now_at_validation world)) =
         Inr (Some reason)"
  shows "handler config gate world req =
     reject \<lparr>code = INVALID_PAYLOAD, message = reason, cause = None\<rparr> ''Invalid Payment'' reason
       config initial"
  using assms by (simp add: handler_def truthy_def verification_requirements_def)

lemma handler_settled:
  assumes "findMatchingRoute (req_path req) (req_method req) (routeMatchers gate) config = Some rc"
    and "payment_header req = Some h" and "h \<noteq> []"
    and "decodePaymentPayload h = Inr parsed"
    and "usdToBaseUnits (price rc) = Inr amt"
    and "validatePaymentAgainstRequirements (payload_of_json parsed)
           (verification_requirements config gate req amt) (unix_seconds (now_at_validation world)) =
         Inr None"
    and "settle world (payload_of_json parsed) (verification_requirements config gate req amt) = Inr st"
    and "success st"
  shows "handler config gate world req =
     accept config gate world req rc st
       (initial\<lparr>events := [Settle (payload_of_json parsed) (verification_requirements config gate req amt)]\<rparr>)"
  using assms by (simp add: handler_def truthy_def verification_requirements_def)

lemma reject_effects:
  "status (reject err e m config fx) = 402"
  "body (reject err e m config fx) = Some (error_body e m)"
  "events (reject err e m config initial) =
     (case onError config of None \<Rightarrow> [] | Some cb \<Rightarrow> OnError err # (if cb err then [ConsoleError] else []))"
  by (simp_all add: reject_def handleError_def initial_def split: option.splits)

lemma base64_encode_nonempty: "bs \<noteq> [] \<Longrightarrow> base64_encode bs \<noteq> []"
proof
  assume "bs \<noteq> []" "base64_encode bs = []"
  then have "base64_decode [] = bs" using base64_roundtrip[of bs] by simp
  then show False using \<open>bs \<noteq> []\<close> by (simp add: base64_decode_def)
qed

lemma encodePaymentPayload_nonempty: "encodePaymentPayload p \<noteq> []"
  unfolding encodePaymentPayload_def
  by (rule base64_encode_nonempty) (simp add: json_of_payload_def)

lemma validator_low_value:
  assumes "BigInt (auth_value (authorization (payload p))) = Some v" and "BigInt (maxAmountRequired r) = Some m"
    and "v < m"
  shows "validatePaymentAgainstRequirements p r now =
     Inr (Some (if pay_network p \<noteq> network r then
                  ''Network mismatch: expected '' @ network r @ '', got '' @ pay_network p
                else if toLowerCase (auth_to (authorization (payload p))) \<noteq> toLowerCase (payTo r) then
                  ''Recipient mismatch: expected '' @ payTo r @ '', got '' @ auth_to (authorization (payload p))
                else ''Insufficient amount: required '' @ maxAmountRequired r @ '', got '' @
                     auth_value (authorization (payload p))))"
  using assms by (simp add: validatePaymentAgainstRequirements_def bigint_or_throw_def Let_def)

lemma example_route_found:
  "findMatchingRoute (req_path (example_request h)) (req_method (example_request h))
     (routeMatchers (example_gate (example_protected cb))) (example_protected cb) =
   Some (example_route ''/api/test'' ''0.01'' None)"
proof -
  have m: "routeMatchers (example_gate (example_protected cb)) =
      createRouteMatchers (example_config None (Some [example_route ''/api/test'' ''0.01'' None]))"
    by (simp add: example_gate_def example_protected_def createRouteMatchers_def)
  have f: "first_match ''/api/test'' ''GET''
      (createRouteMatchers (example_config None (Some [example_route ''/api/test'' ''0.01'' None]))) =
      Some (example_route ''/api/test'' ''0.01'' None)"
    by code_simp
  have n: "createRouteMatchers (example_config None (Some [example_route ''/api/test'' ''0.01'' None])) \<noteq> []"
    by (simp add: createRouteMatchers_def example_config_def)
  show ?thesis
    unfolding m by (simp add: findMatchingRoute_def n f example_request_def)
qed

lemma example_payload_valid:
  "validatePaymentPayload (json_of_payload (example_payload ''eip155:8453'' ''10000'')) = None"
  "validatePaymentPayload (json_of_payload (example_payload ''eip155:8453'' ''9999'')) = None"
  "validatePaymentPayload (json_of_payload (example_payload ''eip155:1'' ''9999'')) = None"
  by code_simp+

lemma example_payload_roundtrips:
  "number_roundtrips (validAfter (authorization (payload (example_payload n v))))"
  "number_roundtrips (validBefore (authorization (payload (example_payload n v))))"
  by (simp_all add: example_payload_def number_roundtrips_numeral)

lemma example_payload_decoded:
  "decodePaymentPayload (encodePaymentPayload (example_payload ''eip155:8453'' ''10000'')) =
     Inr (json_of_payload (example_payload ''eip155:8453'' ''10000''))"
  "decodePaymentPayload (encodePaymentPayload (example_payload ''eip155:8453'' ''9999'')) =
     Inr (json_of_payload (example_payload ''eip155:8453'' ''9999''))"
  "decodePaymentPayload (encodePaymentPayload (example_payload ''eip155:1'' ''9999'')) =
     Inr (json_of_payload (example_payload ''eip155:1'' ''9999''))"
  by (rule decode_encode_payload[OF example_payload_valid(1) example_payload_roundtrips],
      rule decode_encode_payload[OF example_payload_valid(2) example_payload_roundtrips],
      rule decode_encode_payload[OF example_payload_valid(3) example_payload_roundtrips])

lemma example_unix_seconds: "unix_seconds 1704067300123 = Finite 1704067300"
  by code_simp

lemma example_payload_accepted:
  "validatePaymentAgainstRequirements (example_payload ''eip155:8453'' ''10000'')
     (verification_requirements (example_protected cb) (example_gate (example_protected cb))
        (example_request h) ''10000'')
     (Finite 1704067300) = Inr None"
proof -
  have r: "verification_requirements (example_protected cb) (example_gate (example_protected cb))
        (example_request h) ''10000'' = example_requirements"
    by (simp add: verification_requirements_def example_protected_def example_gate_def
        example_request_def example_requirements_def example_config_def)
  show ?thesis unfolding r by code_simp
qed

lemma accept_effects:
  "headers (accept config gate world req rc st (initial\<lparr>events := evs\<rparr>)) =
     [(HEADERS_PAYMENT_RESPONSE, encodeSettlementResponse st)]"
  "paymentReceipt (accept config gate world req rc st (initial\<lparr>events := evs\<rparr>)) =
     Some \<lparr>receipt_payer = payer st, amount = price rc,
           transactionHash = (case transaction st of None \<Rightarrow> [] | Some t \<Rightarrow> t),
           receipt_network = gate_network gate,
           receipt_timestamp =
             (case timestamp st of None \<Rightarrow> num_of_int (now_at_receipt world) | Some t \<Rightarrow> t),
           receipt_resource = req_path req\<rparr>"
  "status (accept config gate world req rc st (initial\<lparr>events := evs\<rparr>)) = status initial"
  "body (accept config gate world req rc st (initial\<lparr>events := evs\<rparr>)) = None"
  "events (accept config gate world req rc st (initial\<lparr>events := evs\<rparr>)) =
     evs @
     (case onPayment config of
        None \<Rightarrow> []
      | Some cb \<Rightarrow>
          OnPayment \<lparr>receipt_payer = payer st, amount = price rc,
                     transactionHash = (case transaction st of None \<Rightarrow> [] | Some t \<Rightarrow> t),
                     receipt_network = gate_network gate,
                     receipt_timestamp =
                       (case timestamp st of None \<Rightarrow> num_of_int (now_at_receipt world) | Some t \<Rightarrow> t),
                     receipt_resource = req_path req\<rparr> #
          (if cb \<lparr>receipt_payer = payer st, amount = price rc,
                   transactionHash = (case transaction st of None \<Rightarrow> [] | Some t \<Rightarrow> t),
                   receipt_network = gate_network gate,
                   receipt_timestamp =
                     (case timestamp st of None \<Rightarrow> num_of_int (now_at_receipt world) | Some t \<Rightarrow> t),
                   receipt_resource = req_path req\<rparr>
           then [ConsoleError] else [])) @
     [Next]"
  by (simp_all add: accept_def initial_def Let_def split: option.splits)

lemma example_validation:
  "validatePaymentAgainstRequirements
     (payload_of_json (json_of_payload (example_payload ''eip155:8453'' ''10000'')))
     (verification_requirements (example_protected cb) (example_gate (example_protected cb))
        (example_request h) ''10000'')
     (unix_seconds (now_at_validation (example_world st))) = Inr None"
proof -
  have n: "unix_seconds (now_at_validation (example_world st)) = Finite 1704067300"
    using example_unix_seconds by (simp add: example_world_def)
  show ?thesis unfolding payload_of_json_of_payload n by (rule example_payload_accepted)
qed

lemma example_amount: "usdToBaseUnits (price (example_route ''/api/test'' ''0.01'' None)) = Inr ''10000''"
  by (simp add: example_route_def usdToBaseUnits_cent)

lemma num_of_int_example: "num_of_int 1704067302456 = Finite 1704067302456"
  using round_double_int[of 1704067302456] by (simp add: num_of_int_def)

subsection \<open>Payment requirements on the wire\<close>







subsection \<open>What \<open>x402(config)\<close> has checked\<close>






subsection \<open>Settlements and non-finite numbers on the wire\<close>









subsection \<open>Prices on the six-decimal grid\<close>

















section \<open>The payment validator\<close>




section \<open>Route resolution\<close>

text \<open>
  Claim C6. With a non-empty list of route rules, \<open>findMatchingRoute\<close> returns the first rule,
  in the order of the list, whose pattern matches the whole path and whose methods hold the
  request's method; later rules are not consulted, whatever their pattern. A pattern with
  no \<open>*\<close> and no \<open>:\<close> matches exactly its own text; \<open>/api/*\<close> matches
  \<open>/api/anything/here\<close>; a rule with methods \<open>["POST"]\<close> does not apply to \<open>GET\<close> and applies
  to \<open>POST\<close>; and when no rule applies the handler only calls \<open>next\<close>.
\<close>

theorem route_resolution:
  assumes "routes config = Some rs" and "rs \<noteq> []"
  shows
    "findMatchingRoute p m (createRouteMatchers config) config = List.find (\<lambda>r. rule_applies r p m) rs \<and>
     (findMatchingRoute p m (createRouteMatchers config) config = Some route \<longleftrightarrow>
        (\<exists>i<length rs. rule_applies (rs ! i) p m \<and> route = rs ! i \<and> (\<forall>j<i. \<not> rule_applies (rs ! j) p m))) \<and>
     (findMatchingRoute p m (createRouteMatchers config) config = None \<longrightarrow>
        handler config \<lparr>gate_network = n, gate_asset = a, routeMatchers = createRouteMatchers config\<rparr> world
          \<lparr>req_path = p, req_method = m, payment_header = h\<rparr> = initial\<lparr>events := [Next]\<rparr>) \<and>
     (\<forall>pt s. CHR ''*'' \<notin> set pt \<and> CHR '':'' \<notin> set pt \<longrightarrow> (regex_test (pathToRegex pt) s \<longleftrightarrow> s = pt)) \<and>
     regex_test (pathToRegex ''/api/*'') ''/api/anything/here'' \<and>
     \<not> rule_applies (example_route ''/api/test'' ''0.01'' (Some [''POST''])) ''/api/test'' ''GET'' \<and>
     rule_applies (example_route ''/api/test'' ''0.01'' (Some [''POST''])) ''/api/test'' ''POST''"
proof -
  have 1: "findMatchingRoute p m (createRouteMatchers config) config = List.find (\<lambda>r. rule_applies r p m) rs"
    by (rule findMatchingRoute_rules[OF assms])
  have 2: "(findMatchingRoute p m (createRouteMatchers config) config = Some route \<longleftrightarrow>
        (\<exists>i<length rs. rule_applies (rs ! i) p m \<and> route = rs ! i \<and> (\<forall>j<i. \<not> rule_applies (rs ! j) p m)))"
    unfolding 1 by (rule find_Some_iff)
  have 3: "findMatchingRoute p m (createRouteMatchers config) config = None \<longrightarrow>
        handler config \<lparr>gate_network = n, gate_asset = a, routeMatchers = createRouteMatchers config\<rparr> world
          \<lparr>req_path = p, req_method = m, payment_header = h\<rparr> = initial\<lparr>events := [Next]\<rparr>"
    by (simp add: handler_def)
  have 4: "\<forall>pt s. CHR ''*'' \<notin> set pt \<and> CHR '':'' \<notin> set pt \<longrightarrow> (regex_test (pathToRegex pt) s \<longleftrightarrow> s = pt)"
    using exact_path_rule by blast
  have 5: "regex_test (pathToRegex ''/api/*'') ''/api/anything/here''"
    by code_simp
  have 6: "\<not> rule_applies (example_route ''/api/test'' ''0.01'' (Some [''POST''])) ''/api/test'' ''GET''"
    by code_simp
  have 7: "rule_applies (example_route ''/api/test'' ''0.01'' (Some [''POST''])) ''/api/test'' ''POST''"
    by code_simp
  show ?thesis using 1 2 3 4 5 6 7 by blast
qed

theorem route_resolution_witness:
  "findMatchingRoute ''/api/test'' ''GET''
     (createRouteMatchers (example_config None
        (Some [example_route ''/api/*'' ''0.02'' None, example_route ''/api/test'' ''0.01'' None])))
     (example_config None
        (Some [example_route ''/api/*'' ''0.02'' None, example_route ''/api/test'' ''0.01'' None]))
     = Some (example_route ''/api/*'' ''0.02'' None) \<and>
   handler (example_config None (Some [example_route ''/api/test'' ''0.01'' (Some [''POST''])]))
     (example_gate (example_config None (Some [example_route ''/api/test'' ''0.01'' (Some [''POST''])])))
     (example_world (example_settlement None None))
     \<lparr>req_path = ''/api/test'', req_method = ''GET'', payment_header = None\<rparr>
     = initial\<lparr>events := [Next]\<rparr> \<and>
   \<not> regex_test (pathToRegex ''/api/test'') ''/api/test/more''"
proof -
  let ?rs = "[example_route ''/api/*'' ''0.02'' None, example_route ''/api/test'' ''0.01'' None]"
  let ?c = "example_config None (Some ?rs)"
  let ?ps = "[example_route ''/api/test'' ''0.01'' (Some [''POST''])]"
  let ?d = "example_config None (Some ?ps)"
  have c: "routes ?c = Some ?rs" "?rs \<noteq> []" by (simp_all add: example_config_def)
  have d: "routes ?d = Some ?ps" "?ps \<noteq> []" by (simp_all add: example_config_def)
  have f: "List.find (\<lambda>r. rule_applies r ''/api/test'' ''GET'') ?rs = Some (example_route ''/api/*'' ''0.02'' None)"
    by code_simp
  have g: "List.find (\<lambda>r. rule_applies r ''/api/test'' ''GET'') ?ps = None"
    by code_simp
  have s: "CHR ''*'' \<notin> set ''/api/test'' \<and> CHR '':'' \<notin> set ''/api/test''" by simp
  note A = route_resolution[OF c, of "''/api/test''" "''GET''"]
  note B = route_resolution[OF d, of "''/api/test''" "''GET''" _ "''eip155:8453''"
      "''0x833589fCD6eDb6E08f4c7C32D4f71b54bdA02913''" "example_world (example_settlement None None)" None]
  have 1: "findMatchingRoute ''/api/test'' ''GET'' (createRouteMatchers ?c) ?c
      = Some (example_route ''/api/*'' ''0.02'' None)"
    using A[THEN conjunct1] f by (rule trans)
  have n: "findMatchingRoute ''/api/test'' ''GET'' (createRouteMatchers ?d) ?d = None"
    using B[THEN conjunct1] g by (rule trans)
  note B3 = B[THEN conjunct2, THEN conjunct2, THEN conjunct1, THEN mp, OF n]
  have 2: "handler ?d (example_gate ?d) (example_world (example_settlement None None))
      \<lparr>req_path = ''/api/test'', req_method = ''GET'', payment_header = None\<rparr>
     = initial\<lparr>events := [Next]\<rparr>"
    unfolding example_gate_def by (rule B3)
  note A4 = A[THEN conjunct2, THEN conjunct2, THEN conjunct2, THEN conjunct1, THEN spec, THEN spec, THEN mp, OF s]
  have 3: "\<not> regex_test (pathToRegex ''/api/test'') ''/api/test/more''"
    unfolding A4 by simp
  show ?thesis using 1 2 3 by blast
qed

section \<open>The documented conversions\<close>

text \<open>
  Claim C9. On the documented values the two conversions give the documented results:
  \<open>usdToBaseUnits\<close> maps \<open>1.00\<close> to \<open>1000000\<close>, \<open>0.01\<close> to \<open>10000\<close> and \<open>0.000001\<close> to \<open>1\<close>, and
  \<open>baseUnitsToUsd\<close> maps \<open>1500000\<close> to \<open>1.50\<close> and \<open>1\<close> to \<open>0.000001\<close>. On these values each
  conversion undoes the other: \<open>baseUnitsToUsd\<close> maps \<open>1000000\<close>, \<open>10000\<close> back to \<open>1.00\<close>,
  \<open>0.01\<close>, and \<open>usdToBaseUnits\<close> maps \<open>1.50\<close> back to \<open>1500000\<close>.
\<close>

theorem documented_conversions:
  "usdToBaseUnits ''1.00'' = Inr ''1000000'' \<and>
   usdToBaseUnits ''0.01'' = Inr ''10000'' \<and>
   usdToBaseUnits ''0.000001'' = Inr ''1'' \<and>
   baseUnitsToUsd ''1500000'' = Inr ''1.50'' \<and>
   baseUnitsToUsd ''1'' = Inr ''0.000001'' \<and>
   baseUnitsToUsd ''1000000'' = Inr ''1.00'' \<and>
   baseUnitsToUsd ''10000'' = Inr ''0.01'' \<and>
   usdToBaseUnits ''1.50'' = Inr ''1500000''"
proof -
  have 1: "usdToBaseUnits ''1.00'' = Inr ''1000000''" by code_simp
  have 2: "usdToBaseUnits ''0.01'' = Inr ''10000''" by code_simp
  have 3: "usdToBaseUnits ''0.000001'' = Inr ''1''" by code_simp
  have 4: "baseUnitsToUsd ''1500000'' = Inr ''1.50''" by code_simp
  have 5: "baseUnitsToUsd ''1'' = Inr ''0.000001''" by code_simp
  have 6: "baseUnitsToUsd ''1000000'' = Inr ''1.00''" by code_simp
  have 7: "baseUnitsToUsd ''10000'' = Inr ''0.01''" by code_simp
  have 8: "usdToBaseUnits ''1.50'' = Inr ''1500000''" by code_simp
  show ?thesis using 1 2 3 4 5 6 7 8 by blast
qed

section \<open>Decoding a settlement response\<close>

text \<open>
  Claim C4. \<open>decodePaymentRequirements\<close> and \<open>decodePaymentPayload\<close> validate what they
  parsed, but \<open>decodeSettlementResponse\<close> returns whatever \<open>JSON.parse\<close> returned: it fails
  exactly when the text is not JSON. The text \<open>null\<close> (base64 \<open>bnVsbA==\<close>) and the empty
  object (base64 \<open>e30=\<close>) are returned as settlement responses, where the other two decoders
  reject them.
\<close>

theorem decodeSettlementResponse_unvalidated:
  "decodeSettlementResponse ''bnVsbA=='' = Inr JNull \<and>
   decodeSettlementResponse ''e30='' = Inr (JObj []) \<and>
   decodePaymentPayload ''bnVsbA=='' = Inl (Error ''Payment payload must be an object'') \<and>
   decodePaymentPayload ''e30='' = Inl (Error ''Invalid x402Version'') \<and>
   decodePaymentRequirements ''bnVsbA=='' = Inl (Error ''Payment requirements must be an array'') \<and>
   ((\<exists>e. decodeSettlementResponse encoded = Inl e) \<longleftrightarrow> JSON_parse (base64_decode encoded) = None)"
proof -
  have 1: "decodeSettlementResponse ''bnVsbA=='' = Inr JNull" by code_simp
  have 2: "decodeSettlementResponse ''e30='' = Inr (JObj [])" by code_simp
  have 3: "decodePaymentPayload ''bnVsbA=='' = Inl (Error ''Payment payload must be an object'')"
    by code_simp
  have 4: "decodePaymentPayload ''e30='' = Inl (Error ''Invalid x402Version'')" by code_simp
  have 5: "decodePaymentRequirements ''bnVsbA=='' = Inl (Error ''Payment requirements must be an array'')"
    by code_simp
  have 6: "(\<exists>e. decodeSettlementResponse encoded = Inl e) \<longleftrightarrow> JSON_parse (base64_decode encoded) = None"
    by (simp add: decodeSettlementResponse_def split: option.splits)
  show ?thesis using 1 2 3 4 5 6 by blast
qed

section \<open>A payment below the required amount\<close>

text \<open>
  Claim C2, as stated, fails: a payload that decodes and authorises less than the required
  amount is answered with status 402, but not always with the insufficient-amount reason.
  The validator compares the networks first, so a payload for another network is answered
  with the network mismatch, whatever its value. The request below carries a valid payload
  for \<open>eip155:1\<close> with the value 9999 to a route that requires 10000 on \<open>eip155:8453\<close>.
\<close>

theorem insufficient_payment_counterexample:
  "decodePaymentPayload (encodePaymentPayload (example_payload ''eip155:1'' ''9999'')) =
     Inr (json_of_payload (example_payload ''eip155:1'' ''9999'')) \<and>
   BigInt (auth_value (authorization (payload (example_payload ''eip155:1'' ''9999'')))) = Some 9999 \<and>
   usdToBaseUnits (price (example_route ''/api/test'' ''0.01'' None)) = Inr ''10000'' \<and>
   BigInt ''10000'' = Some 10000 \<and>
   body (handler (example_protected None) (example_gate (example_protected None))
           (example_world (example_settlement None None))
           (example_request (Some (encodePaymentPayload (example_payload ''eip155:1'' ''9999''))))) =
     Some (error_body ''Invalid Payment'' ''Network mismatch: expected eip155:8453, got eip155:1'')"
proof -
  let ?p = "example_payload ''eip155:1'' ''9999''"
  let ?c = "example_protected None"
  let ?g = "example_gate ?c"
  let ?w = "example_world (example_settlement None None)"
  let ?q = "example_request (Some (encodePaymentPayload ?p))"
  have v: "BigInt (auth_value (authorization (payload ?p))) = Some 9999"
    by (simp add: example_payload_def BigInt_digits is_digit_def digits_val_def hex_val_def)
  have a: "usdToBaseUnits (price (example_route ''/api/test'' ''0.01'' None)) = Inr ''10000''"
    by (simp add: example_route_def usdToBaseUnits_cent)
  have m: "BigInt ''10000'' = Some 10000"
    by (simp add: BigInt_digits is_digit_def digits_val_def hex_val_def)
  have h: "payment_header ?q = Some (encodePaymentPayload ?p)" by (simp add: example_request_def)
  have val: "validatePaymentAgainstRequirements (payload_of_json (json_of_payload ?p))
           (verification_requirements ?c ?g ?q ''10000'') (unix_seconds (now_at_validation ?w)) =
         Inr (Some ''Network mismatch: expected eip155:8453, got eip155:1'')"
    unfolding payload_of_json_of_payload
    by (simp add: validatePaymentAgainstRequirements_def verification_requirements_def
        example_payload_def example_gate_def)
  have "handler ?c ?g ?w ?q =
     reject \<lparr>code = INVALID_PAYLOAD, message = ''Network mismatch: expected eip155:8453, got eip155:1'',
             cause = None\<rparr> ''Invalid Payment'' ''Network mismatch: expected eip155:8453, got eip155:1''
       ?c initial"
    by (rule handler_rejected[OF example_route_found h encodePaymentPayload_nonempty
          example_payload_decoded(3) a val])
  then have b: "body (handler ?c ?g ?w ?q) =
      Some (error_body ''Invalid Payment'' ''Network mismatch: expected eip155:8453, got eip155:1'')"
    by (simp only: reject_effects)
  show ?thesis using example_payload_decoded(3) v a m b by blast
qed

text \<open>
  Claim C2, amended. A request on a protected route whose payload decodes and authorises
  a value strictly below the required amount (both read as big integers) is answered with
  status 402, and neither the facilitator's \<open>settle\<close> nor \<open>next\<close> is called. The reason is the
  insufficient amount when the payload's network and recipient are those required;
  otherwise it is the network mismatch or, with equal networks, the recipient mismatch.
\<close>

theorem insufficient_payment_rejected:
  assumes "findMatchingRoute (req_path req) (req_method req) (routeMatchers gate) config = Some rc"
    and "payment_header req = Some h" and "h \<noteq> []"
    and "decodePaymentPayload h = Inr parsed"
    and "usdToBaseUnits (price rc) = Inr amt"
    and "BigInt (auth_value (authorization (payload (payload_of_json parsed)))) = Some v"
    and "BigInt amt = Some m"
    and "v < m"
  shows
    "status (handler config gate world req) = 402 \<and>
     (\<forall>p r. Settle p r \<notin> set (events (handler config gate world req))) \<and>
     Next \<notin> set (events (handler config gate world req)) \<and>
     (pay_network (payload_of_json parsed) = gate_network gate \<and>
      toLowerCase (auth_to (authorization (payload (payload_of_json parsed)))) =
        toLowerCase (recipient config) \<longrightarrow>
        body (handler config gate world req) =
          Some (error_body ''Invalid Payment''
                  (''Insufficient amount: required '' @ amt @ '', got '' @
                   auth_value (authorization (payload (payload_of_json parsed)))))) \<and>
     (pay_network (payload_of_json parsed) \<noteq> gate_network gate \<longrightarrow>
        body (handler config gate world req) =
          Some (error_body ''Invalid Payment''
                  (''Network mismatch: expected '' @ gate_network gate @ '', got '' @
                   pay_network (payload_of_json parsed)))) \<and>
     (pay_network (payload_of_json parsed) = gate_network gate \<and>
      toLowerCase (auth_to (authorization (payload (payload_of_json parsed)))) \<noteq>
        toLowerCase (recipient config) \<longrightarrow>
        body (handler config gate world req) =
          Some (error_body ''Invalid Payment''
                  (''Recipient mismatch: expected '' @ recipient config @ '', got '' @
                   auth_to (authorization (payload (payload_of_json parsed))))))"
proof -
  let ?p = "payload_of_json parsed"
  let ?r = "verification_requirements config gate req amt"
  let ?reason = "if pay_network ?p \<noteq> network ?r then
                  ''Network mismatch: expected '' @ network ?r @ '', got '' @ pay_network ?p
                else if toLowerCase (auth_to (authorization (payload ?p))) \<noteq> toLowerCase (payTo ?r) then
                  ''Recipient mismatch: expected '' @ payTo ?r @ '', got '' @ auth_to (authorization (payload ?p))
                else ''Insufficient amount: required '' @ maxAmountRequired ?r @ '', got '' @
                     auth_value (authorization (payload ?p))"
  have m: "BigInt (maxAmountRequired ?r) = Some m"
    using assms(7) by (simp add: verification_requirements_def)
  have val: "validatePaymentAgainstRequirements ?p ?r (unix_seconds (now_at_validation world)) =
      Inr (Some ?reason)"
    by (rule validator_low_value[OF assms(6) m assms(8)])
  have hd: "handler config gate world req =
     reject \<lparr>code = INVALID_PAYLOAD, message = ?reason, cause = None\<rparr> ''Invalid Payment'' ?reason
       config initial"
    by (rule handler_rejected[OF assms(1-5) val])
  have r: "network ?r = gate_network gate" "payTo ?r = recipient config" "maxAmountRequired ?r = amt"
    by (simp_all add: verification_requirements_def)
  have 1: "status (handler config gate world req) = 402"
    unfolding hd by (rule reject_effects)
  have ev: "events (handler config gate world req) =
      (case onError config of None \<Rightarrow> []
       | Some cb \<Rightarrow> OnError \<lparr>code = INVALID_PAYLOAD, message = ?reason, cause = None\<rparr> #
           (if cb \<lparr>code = INVALID_PAYLOAD, message = ?reason, cause = None\<rparr> then [ConsoleError] else []))"
    unfolding hd by (rule reject_effects)
  have 2: "\<forall>p r. Settle p r \<notin> set (events (handler config gate world req))"
    unfolding ev by (simp split: option.splits)
  have 3: "Next \<notin> set (events (handler config gate world req))"
    unfolding ev by (simp split: option.splits)
  have b: "body (handler config gate world req) = Some (error_body ''Invalid Payment'' ?reason)"
    unfolding hd by (rule reject_effects)
  show ?thesis
    using 1 2 3 b unfolding r by simp
qed

theorem insufficient_payment_rejected_witness:
  "status (handler (example_protected None) (example_gate (example_protected None))
           (example_world (example_settlement None None))
           (example_request (Some (encodePaymentPayload (example_payload ''eip155:8453'' ''9999''))))) = 402 \<and>
   body (handler (example_protected None) (example_gate (example_protected None))
           (example_world (example_settlement None None))
           (example_request (Some (encodePaymentPayload (example_payload ''eip155:8453'' ''9999''))))) =
     Some (error_body ''Invalid Payment'' ''Insufficient amount: required 10000, got 9999'') \<and>
   (\<forall>p r. Settle p r \<notin> set (events (handler (example_protected None) (example_gate (example_protected None))
           (example_world (example_settlement None None))
           (example_request (Some (encodePaymentPayload (example_payload ''eip155:8453'' ''9999'')))))))"
proof -
  let ?p = "example_payload ''eip155:8453'' ''9999''"
  let ?c = "example_protected None"
  let ?g = "example_gate ?c"
  let ?w = "example_world (example_settlement None None)"
  let ?q = "example_request (Some (encodePaymentPayload ?p))"
  have v: "BigInt (auth_value (authorization (payload (payload_of_json (json_of_payload ?p))))) = Some 9999"
    unfolding payload_of_json_of_payload
    by (simp add: example_payload_def BigInt_digits is_digit_def digits_val_def hex_val_def)
  have a: "usdToBaseUnits (price (example_route ''/api/test'' ''0.01'' None)) = Inr ''10000''"
    by (simp add: example_route_def usdToBaseUnits_cent)
  have m: "BigInt ''10000'' = Some 10000"
    by (simp add: BigInt_digits is_digit_def digits_val_def hex_val_def)
  have h: "payment_header ?q = Some (encodePaymentPayload ?p)" by (simp add: example_request_def)
  have lt: "(9999::int) < 10000" by simp
  note T = insufficient_payment_rejected[where world = ?w, OF example_route_found h
      encodePaymentPayload_nonempty example_payload_decoded(2) a v m lt]
  have match: "pay_network (payload_of_json (json_of_payload ?p)) = gate_network ?g \<and>
      toLowerCase (auth_to (authorization (payload (payload_of_json (json_of_payload ?p))))) =
        toLowerCase (recipient ?c)"
    unfolding payload_of_json_of_payload
    by (simp add: example_payload_def example_gate_def example_protected_def example_config_def)
  have 1: "status (handler ?c ?g ?w ?q) = 402" using T by (rule conjunct1)
  have 2: "\<forall>p r. Settle p r \<notin> set (events (handler ?c ?g ?w ?q))"
    using T[THEN conjunct2] by (rule conjunct1)
  have "body (handler ?c ?g ?w ?q) =
      Some (error_body ''Invalid Payment''
                  (''Insufficient amount: required '' @ ''10000'' @ '', got '' @
                   auth_value (authorization (payload (payload_of_json (json_of_payload ?p))))))"
    using T[THEN conjunct2, THEN conjunct2, THEN conjunct2, THEN conjunct1] match by (rule mp)
  then have 3: "body (handler ?c ?g ?w ?q) =
      Some (error_body ''Invalid Payment'' ''Insufficient amount: required 10000, got 9999'')"
    unfolding payload_of_json_of_payload by (simp add: example_payload_def)
  show ?thesis using 1 2 3 by blast
qed

section \<open>A payment that settles\<close>

text \<open>
  Claim C8. When the payload of a request on a protected route decodes, passes the
  validation against the route's requirements, and the facilitator settles it with success,
  a transaction hash and a payer, the handler sets the \<open>x-payment-response\<close> header to the
  encoded settlement, attaches to the request a receipt with the settlement's payer and
  transaction hash, leaves the response status and body alone, and calls, in this order, the
  facilitator's \<open>settle\<close>, the \<open>onPayment\<close> callback (if one is configured) once with that
  receipt, and \<open>next\<close>. A callback that throws only adds a line on the console: the header,
  the receipt and the call of \<open>next\<close> are the same.
\<close>

theorem payment_accepted:
  assumes "findMatchingRoute (req_path req) (req_method req) (routeMatchers gate) config = Some rc"
    and "payment_header req = Some h" and "h \<noteq> []"
    and "decodePaymentPayload h = Inr parsed"
    and "usdToBaseUnits (price rc) = Inr amt"
    and "validatePaymentAgainstRequirements (payload_of_json parsed)
           (verification_requirements config gate req amt) (unix_seconds (now_at_validation world)) =
         Inr None"
    and "settle world (payload_of_json parsed) (verification_requirements config gate req amt) = Inr st"
    and "success st"
    and "transaction st = Some tx"
  shows
    "\<exists>receipt.
       receipt_payer receipt = payer st \<and> transactionHash receipt = tx \<and>
       amount receipt = price rc \<and> receipt_network receipt = gate_network gate \<and>
       receipt_resource receipt = req_path req \<and>
       headers (handler config gate world req) =
         [(HEADERS_PAYMENT_RESPONSE, encodeSettlementResponse st)] \<and>
       paymentReceipt (handler config gate world req) = Some receipt \<and>
       status (handler config gate world req) = status initial \<and>
       body (handler config gate world req) = None \<and>
       events (handler config gate world req) =
         [Settle (payload_of_json parsed) (verification_requirements config gate req amt)] @
         (case onPayment config of
            None \<Rightarrow> []
          | Some cb \<Rightarrow> OnPayment receipt # (if cb receipt then [ConsoleError] else [])) @
         [Next] \<and>
       (onPayment config \<noteq> None \<longrightarrow>
          count_list (events (handler config gate world req)) (OnPayment receipt) = 1 \<and>
          (\<forall>x. OnPayment x \<in> set (events (handler config gate world req)) \<longrightarrow> x = receipt))"
proof -
  let ?receipt = "\<lparr>receipt_payer = payer st, amount = price rc,
           transactionHash = (case transaction st of None \<Rightarrow> [] | Some t \<Rightarrow> t),
           receipt_network = gate_network gate,
           receipt_timestamp =
             (case timestamp st of None \<Rightarrow> num_of_int (now_at_receipt world) | Some t \<Rightarrow> t),
           receipt_resource = req_path req\<rparr>"
  let ?s = "Settle (payload_of_json parsed) (verification_requirements config gate req amt)"
  have hd: "handler config gate world req = accept config gate world req rc st (initial\<lparr>events := [?s]\<rparr>)"
    by (rule handler_settled[OF assms(1-8)])
  have f: "receipt_payer ?receipt = payer st" "transactionHash ?receipt = tx"
    "amount ?receipt = price rc" "receipt_network ?receipt = gate_network gate"
    "receipt_resource ?receipt = req_path req"
    using assms(9) by simp_all
  have 1: "headers (handler config gate world req) =
      [(HEADERS_PAYMENT_RESPONSE, encodeSettlementResponse st)]"
    unfolding hd by (rule accept_effects)
  have 2: "paymentReceipt (handler config gate world req) = Some ?receipt"
    unfolding hd by (rule accept_effects)
  have 3: "status (handler config gate world req) = status initial"
    unfolding hd by (rule accept_effects)
  have 4: "body (handler config gate world req) = None"
    unfolding hd by (rule accept_effects)
  have 5: "events (handler config gate world req) =
      [?s] @ (case onPayment config of None \<Rightarrow> []
              | Some cb \<Rightarrow> OnPayment ?receipt # (if cb ?receipt then [ConsoleError] else [])) @ [Next]"
    unfolding hd by (rule accept_effects)
  have 6: "onPayment config \<noteq> None \<longrightarrow>
      count_list (events (handler config gate world req)) (OnPayment ?receipt) = 1 \<and>
      (\<forall>x. OnPayment x \<in> set (events (handler config gate world req)) \<longrightarrow> x = ?receipt)"
    unfolding 5 by (auto split: option.splits)
  show ?thesis
    using f 1 2 3 4 5 6 by (intro exI[of _ ?receipt] conjI)
qed

theorem payment_accepted_witness:
  "\<exists>receipt.
     receipt_payer receipt = ''0x0987654321098765432109876543210987654321'' \<and>
     transactionHash receipt = ''0xabc'' \<and>
     headers (handler (example_protected (Some (\<lambda>r. True)))
                (example_gate (example_protected (Some (\<lambda>r. True))))
                (example_world (example_settlement (Some ''0xabc'') None))
                (example_request (Some (encodePaymentPayload (example_payload ''eip155:8453'' ''10000''))))) =
       [(HEADERS_PAYMENT_RESPONSE,
         encodeSettlementResponse (example_settlement (Some ''0xabc'') None))] \<and>
     paymentReceipt (handler (example_protected (Some (\<lambda>r. True)))
                (example_gate (example_protected (Some (\<lambda>r. True))))
                (example_world (example_settlement (Some ''0xabc'') None))
                (example_request (Some (encodePaymentPayload (example_payload ''eip155:8453'' ''10000''))))) =
       Some receipt \<and>
     events (handler (example_protected (Some (\<lambda>r. True)))
                (example_gate (example_protected (Some (\<lambda>r. True))))
                (example_world (example_settlement (Some ''0xabc'') None))
                (example_request (Some (encodePaymentPayload (example_payload ''eip155:8453'' ''10000''))))) =
       [Settle (example_payload ''eip155:8453'' ''10000'') example_requirements,
        OnPayment receipt, ConsoleError, Next]"
proof -
  let ?p = "example_payload ''eip155:8453'' ''10000''"
  let ?c = "example_protected (Some (\<lambda>r. True))"
  let ?g = "example_gate ?c"
  let ?st = "example_settlement (Some ''0xabc'') None"
  let ?w = "example_world ?st"
  let ?q = "example_request (Some (encodePaymentPayload ?p))"
  have h: "payment_header ?q = Some (encodePaymentPayload ?p)" by (simp add: example_request_def)
  have st: "settle ?w (payload_of_json (json_of_payload ?p)) (verification_requirements ?c ?g ?q ''10000'') = Inr ?st"
    "success ?st" "transaction ?st = Some ''0xabc''"
    by (simp_all add: example_world_def example_settlement_def)
  have r: "verification_requirements ?c ?g ?q ''10000'' = example_requirements"
    by (simp add: verification_requirements_def example_protected_def example_gate_def
        example_request_def example_requirements_def example_config_def)
  note T = payment_accepted[where world = ?w, OF example_route_found h encodePaymentPayload_nonempty
      example_payload_decoded(1) example_amount example_validation st]
  then obtain receipt where R:
    "receipt_payer receipt = payer ?st" "transactionHash receipt = ''0xabc''"
    "headers (handler ?c ?g ?w ?q) = [(HEADERS_PAYMENT_RESPONSE, encodeSettlementResponse ?st)]"
    "paymentReceipt (handler ?c ?g ?w ?q) = Some receipt"
    "events (handler ?c ?g ?w ?q) =
         [Settle (payload_of_json (json_of_payload ?p)) (verification_requirements ?c ?g ?q ''10000'')] @
         (case onPayment ?c of
            None \<Rightarrow> []
          | Some cb \<Rightarrow> OnPayment receipt # (if cb receipt then [ConsoleError] else [])) @
         [Next]"
    by blast
  have p: "receipt_payer receipt = ''0x0987654321098765432109876543210987654321''"
    using R(1) by (simp add: example_settlement_def)
  have cb: "onPayment ?c = Some (\<lambda>r. True)" by (simp add: example_protected_def)
  have e: "events (handler ?c ?g ?w ?q) =
      [Settle ?p example_requirements, OnPayment receipt, ConsoleError, Next]"
    unfolding R(5) payload_of_json_of_payload r cb by simp
  show ?thesis using p R(2,3,4) e by blast
qed

section \<open>A settlement without the optional fields\<close>

text \<open>
  Claim C10. When the settlement succeeds, the receipt is built and \<open>next\<close> is called also
  when the settlement carries no \<open>transaction\<close> or no \<open>timestamp\<close>: the receipt's transaction
  hash is then the empty string, and its timestamp is \<open>Date.now()\<close>, the clock in
  milliseconds, where the validity window was checked against the clock in whole seconds
  and a timestamp the facilitator gives is passed on as it is.
\<close>

theorem receipt_defaults:
  assumes "findMatchingRoute (req_path req) (req_method req) (routeMatchers gate) config = Some rc"
    and "payment_header req = Some h" and "h \<noteq> []"
    and "decodePaymentPayload h = Inr parsed"
    and "usdToBaseUnits (price rc) = Inr amt"
    and "validatePaymentAgainstRequirements (payload_of_json parsed)
           (verification_requirements config gate req amt) (unix_seconds (now_at_validation world)) =
         Inr None"
    and "settle world (payload_of_json parsed) (verification_requirements config gate req amt) = Inr st"
    and "success st"
  shows
    "\<exists>receipt.
       paymentReceipt (handler config gate world req) = Some receipt \<and>
       receipt_payer receipt = payer st \<and>
       transactionHash receipt = (case transaction st of None \<Rightarrow> [] | Some t \<Rightarrow> t) \<and>
       receipt_timestamp receipt =
         (case timestamp st of None \<Rightarrow> num_of_int (now_at_receipt world) | Some t \<Rightarrow> t) \<and>
       (transaction st = None \<longrightarrow> transactionHash receipt = []) \<and>
       (timestamp st = None \<longrightarrow> receipt_timestamp receipt = num_of_int (now_at_receipt world)) \<and>
       headers (handler config gate world req) =
         [(HEADERS_PAYMENT_RESPONSE, encodeSettlementResponse st)] \<and>
       status (handler config gate world req) = status initial \<and>
       last (events (handler config gate world req)) = Next"
proof -
  let ?receipt = "\<lparr>receipt_payer = payer st, amount = price rc,
           transactionHash = (case transaction st of None \<Rightarrow> [] | Some t \<Rightarrow> t),
           receipt_network = gate_network gate,
           receipt_timestamp =
             (case timestamp st of None \<Rightarrow> num_of_int (now_at_receipt world) | Some t \<Rightarrow> t),
           receipt_resource = req_path req\<rparr>"
  let ?s = "Settle (payload_of_json parsed) (verification_requirements config gate req amt)"
  have hd: "handler config gate world req = accept config gate world req rc st (initial\<lparr>events := [?s]\<rparr>)"
    by (rule handler_settled[OF assms(1-8)])
  have 1: "paymentReceipt (handler config gate world req) = Some ?receipt"
    unfolding hd by (rule accept_effects)
  have 2: "headers (handler config gate world req) =
      [(HEADERS_PAYMENT_RESPONSE, encodeSettlementResponse st)]"
    unfolding hd by (rule accept_effects)
  have 3: "status (handler config gate world req) = status initial"
    unfolding hd by (rule accept_effects)
  have 4: "last (events (handler config gate world req)) = Next"
    unfolding hd accept_effects by simp
  have f: "receipt_payer ?receipt = payer st"
    "transactionHash ?receipt = (case transaction st of None \<Rightarrow> [] | Some t \<Rightarrow> t)"
    "receipt_timestamp ?receipt =
       (case timestamp st of None \<Rightarrow> num_of_int (now_at_receipt world) | Some t \<Rightarrow> t)"
    "transaction st = None \<longrightarrow> transactionHash ?receipt = []"
    "timestamp st = None \<longrightarrow> receipt_timestamp ?receipt = num_of_int (now_at_receipt world)"
    by simp_all
  show ?thesis
    using 1 f 2 3 4 by (intro exI[of _ ?receipt] conjI)
qed

theorem receipt_defaults_witness:
  "\<exists>receipt.
     paymentReceipt (handler (example_protected None) (example_gate (example_protected None))
                (example_world (example_settlement None None))
                (example_request (Some (encodePaymentPayload (example_payload ''eip155:8453'' ''10000''))))) =
       Some receipt \<and>
     transactionHash receipt = [] \<and>
     receipt_timestamp receipt = Finite 1704067302456 \<and>
     unix_seconds 1704067300123 = Finite 1704067300 \<and>
     last (events (handler (example_protected None) (example_gate (example_protected None))
                (example_world (example_settlement None None))
                (example_request (Some (encodePaymentPayload (example_payload ''eip155:8453'' ''10000'')))))) =
       Next"
proof -
  let ?p = "example_payload ''eip155:8453'' ''10000''"
  let ?c = "example_protected None"
  let ?g = "example_gate ?c"
  let ?st = "example_settlement None None"
  let ?w = "example_world ?st"
  let ?q = "example_request (Some (encodePaymentPayload ?p))"
  have h: "payment_header ?q = Some (encodePaymentPayload ?p)" by (simp add: example_request_def)
  have st: "settle ?w (payload_of_json (json_of_payload ?p)) (verification_requirements ?c ?g ?q ''10000'') = Inr ?st"
    "success ?st"
    by (simp_all add: example_world_def example_settlement_def)
  have n: "transaction ?st = None" "timestamp ?st = None" by (simp_all add: example_settlement_def)
  have t: "num_of_int (now_at_receipt ?w) = Finite 1704067302456"
    using num_of_int_example by (simp add: example_world_def)
  note T = receipt_defaults[where world = ?w, OF example_route_found h encodePaymentPayload_nonempty
      example_payload_decoded(1) example_amount example_validation st]
  then obtain receipt where R:
    "paymentReceipt (handler ?c ?g ?w ?q) = Some receipt"
    "transaction ?st = None \<longrightarrow> transactionHash receipt = []"
    "timestamp ?st = None \<longrightarrow> receipt_timestamp receipt = num_of_int (now_at_receipt ?w)"
    "last (events (handler ?c ?g ?w ?q)) = Next"
    by (elim exE conjE) (rule that, assumption+)
  have a: "transactionHash receipt = []" using R(2) n(1) by (rule mp)
  have b: "receipt_timestamp receipt = Finite 1704067302456" using R(3)[THEN mp, OF n(2)] t by (rule trans)
  show ?thesis using R(1) a b example_unix_seconds R(4) by blast
qed

section \<open>A request without a payment\<close>



section \<open>Encoding and decoding\<close>




section \<open>The conversion of a price\<close>




end
